theory Spec2Isabelle
  imports Complex_Main "HOL-Library.AList"
begin

text \<open>
  The command scripts of the Microsoft Graph skill, embedded as functions: check-auth.ts
  (the status check with its silent refresh), check-auth-complete.ts (the check after an
  interactive sign-in), auth.ts (listing and deleting profiles) and calendar.ts (the date
  range and the requests to the Graph API). What a script takes
  from outside (the credential file, the clock, the identity provider, the network) is
  an argument of its function, and what it prints and the exit code are the result.
\<close>

section \<open>Credentials and the credential store\<close>

text \<open>
  A credential as the scripts build and read it (check-auth.ts, the object literal
  \<^verbatim>\<open>newCredential\<close>): the optional fields are \<open>option\<close>s. The field
  \<^verbatim>\<open>expiresAt\<close> is stored as an ISO-8601 string and always read back through
  \<^verbatim>\<open>new Date(credential.expiresAt)\<close>; it is modelled by the time value it names, in
  milliseconds since the epoch (\<^verbatim>\<open>toISOString\<close> keeps milliseconds, so writing and
  reading a valid time value gives it back).
\<close>

record credential =
  accessToken :: string
  refreshToken :: "string option"
  expiresAt :: int
  account :: string
  scopes :: "string list"
  clientId :: "string option"
  tenantId :: "string option"

text \<open>
  The backing JSON document: service name, then profile name, then credential. A JSON
  object keeps its keys in insertion order, so both levels are association lists.
\<close>

type_synonym profiles = "(string \<times> credential) list"
type_synonym store = "(string \<times> profiles) list"

text \<open>
  Modelled from the spec: \<^verbatim>\<open>getCredential\<close> of lib/credentials is not among the
  sources. The spec gives \<^verbatim>\<open>get(service, profile) -> Credential | absent\<close>.
\<close>

definition getCredential :: "store \<Rightarrow> string \<Rightarrow> string \<Rightarrow> credential option" where
  "getCredential st service profile =
     (case map_of st service of
        None \<Rightarrow> None
      | Some ps \<Rightarrow> map_of ps profile)"

text \<open>
  Modelled from the spec: \<^verbatim>\<open>setCredential\<close> of lib/credentials is not among the
  sources. The spec gives \<^verbatim>\<open>set(service, profile, Credential) -> ack\<close>, a rewrite
  of the whole document; an existing key keeps its place, a new key goes last.
\<close>

definition setCredential :: "store \<Rightarrow> string \<Rightarrow> string \<Rightarrow> credential \<Rightarrow> store" where
  "setCredential st service profile c =
     (let ps = (case map_of st service of None \<Rightarrow> [] | Some ps \<Rightarrow> ps)
      in AList.update service (AList.update profile c ps) st)"

text \<open>
  Modelled from the spec: \<^verbatim>\<open>deleteCredential\<close> of lib/credentials is not among the
  sources. The spec gives \<^verbatim>\<open>delete(service, profile) -> boolean found\<close>.
\<close>

definition deleteCredential :: "store \<Rightarrow> string \<Rightarrow> string \<Rightarrow> store \<times> bool" where
  "deleteCredential st service profile =
     (case map_of st service of
        None \<Rightarrow> (st, False)
      | Some ps \<Rightarrow>
          (case map_of ps profile of
             None \<Rightarrow> (st, False)
           | Some c \<Rightarrow> (AList.update service (AList.delete profile ps) st, True)))"

text \<open>
  Modelled from the spec: \<^verbatim>\<open>listProfiles\<close> of lib/credentials is not among the
  sources. The spec gives
  \<^verbatim>\<open>listProfiles(service) -> ordered sequence of profile names\<close>.
\<close>

definition listProfiles :: "store \<Rightarrow> string \<Rightarrow> string list" where
  "listProfiles st service =
     (case map_of st service of
        None \<Rightarrow> []
      | Some ps \<Rightarrow> map fst ps)"

text \<open>
  Modelled from the spec: \<^verbatim>\<open>isTokenExpired\<close> of lib/credentials is not among the
  sources. The spec gives \<^verbatim>\<open>isExpired(credential) -> boolean\<close>: true when current
  time \<open>\<ge>\<close> stored expiry, with no safety margin. The clock reading it takes is its
  first argument.
\<close>

definition isTokenExpired :: "int \<Rightarrow> credential \<Rightarrow> bool" where
  "isTokenExpired now c = (expiresAt c \<le> now)"

section \<open>JavaScript values\<close>

text \<open>
  \<^verbatim>\<open>!s\<close> and \<^verbatim>\<open>if (s)\<close> on an optional string: undefined and the empty string
  are falsy, every other string is truthy.
\<close>

fun truthy :: "string option \<Rightarrow> bool" where
  "truthy None = False"
| "truthy (Some s) = (s \<noteq> [])"

text \<open>\<^verbatim>\<open>a ?? b\<close>: only null and undefined fall through to \<open>b\<close>.\<close>

fun nullish :: "'a option \<Rightarrow> 'a \<Rightarrow> 'a" where
  "nullish None b = b"
| "nullish (Some a) b = a"

text \<open>A thrown value: an \<^verbatim>\<open>Error\<close> with its message, or anything else.\<close>

datatype thrown = Error string | NonError

datatype 'a outcome = Threw thrown | Returned 'a

text \<open>\<^verbatim>\<open>error instanceof Error ? error.message : "Unknown error"\<close>\<close>

fun message :: "thrown \<Rightarrow> string" where
  "message (Error m) = m"
| "message NonError = ''Unknown error''"

text \<open>Decimal rendering of an integer, as a template literal prints it.\<close>

definition digit :: "nat \<Rightarrow> char" where
  "digit n = char_of (48 + n)"

fun show_nat :: "nat \<Rightarrow> string" where
  "show_nat n = (if n < 10 then [digit n] else show_nat (n div 10) @ [digit (n mod 10)])"

declare show_nat.simps [simp del]

definition show_int :: "int \<Rightarrow> string" where
  "show_int i = (if i < 0 then CHR ''-'' # show_nat (nat (- i)) else show_nat (nat i))"

section \<open>check-auth.ts\<close>

datatype check_status = Valid | NeedsAuth

record check_result =
  status :: check_status
  expiresIn :: "int option"
  cr_account :: "string option"
  error :: "string option"

text \<open>
  What \<^verbatim>\<open>console.log\<close> receives: the serialised result in JSON mode
  (\<^verbatim>\<open>JSON.stringify\<close> writes exactly the defined fields), a line of text otherwise.
\<close>

datatype printed = Json check_result | Text string

text \<open>
  \<^verbatim>\<open>output\<close> of check-auth.ts (named \<open>output_result\<close> here): prints the result and
  ends the process with code 0 for "valid" and 1 otherwise. \<^verbatim>\<open>Math.round(expiresIn / 60)\<close> rounds half up.
\<close>

definition output_result :: "bool \<Rightarrow> check_result \<Rightarrow> printed list \<times> int" where
  "output_result json result =
     ((if json then [Json result]
       else if status result = Valid then
         [Text ''Auth status: Valid'']
         @ (if truthy (cr_account result) then [Text (''Account: '' @ the (cr_account result))] else [])
         @ (case expiresIn result of
              None \<Rightarrow> []
            | Some s \<Rightarrow> [Text (''Expires in: '' @ show_int ((s + 30) div 60) @ '' minutes'')])
       else
         [Text ''Auth status: Authentication required'']
         @ (if truthy (error result) then [Text (''Reason: '' @ the (error result))] else [])),
      (if status result = Valid then 0 else 1))"

text \<open>
  The identity provider, reached through
  \<^verbatim>\<open>new PublicClientApplication(...).acquireTokenByRefreshToken(...)\<close>: it receives
  the request the script builds and throws, returns null, or returns a result.
\<close>

record refresh_request =
  rq_clientId :: string
  rq_authority :: string
  rq_refreshToken :: string
  rq_scopes :: "string list"

record account_info =
  username :: "string option"

record auth_result =
  ar_accessToken :: string
  ar_refreshToken :: "string option"
  ar_expiresOn :: "int option"
  ar_account :: "account_info option"
  ar_scopes :: "string list option"

text \<open>
  \<^verbatim>\<open>GRAPH_SCOPES\<close> is a constant of lib/graph-client, which is not among the sources;
  it is a parameter of the run.
\<close>

record graph_scopes =
  gs_user :: "string list"
  gs_mail :: "string list"
  gs_calendar :: "string list"

text \<open>
  What one run of check-auth.ts meets: its flags, the constant \<^verbatim>\<open>GRAPH_SCOPES\<close>,
  the provider, and the clock. Each place that reads the clock has a reading of its own,
  so nothing is assumed about how they relate: \<open>t_expired\<close> is read by
  \<^verbatim>\<open>isTokenExpired\<close>, \<open>t_valid\<close> by \<^verbatim>\<open>Date.now()\<close> on the branch of an
  unexpired token, \<open>t_default\<close> by \<^verbatim>\<open>Date.now() + 3600000\<close>, and \<open>t_refreshed\<close>
  by \<^verbatim>\<open>Date.now()\<close> after the refreshed credential is saved.
\<close>

record check_env =
  profile :: string
  json :: bool
  GRAPH_SCOPES :: graph_scopes
  provider :: "refresh_request \<Rightarrow> auth_result option outcome"
  t_expired :: int
  t_valid :: int
  t_default :: int
  t_refreshed :: int

definition DEFAULT_CLIENT_ID :: string where
  "DEFAULT_CLIENT_ID = ''14d82eec-204b-4c2f-b7e8-296a70dab67e''"

definition DEFAULT_TENANT :: string where
  "DEFAULT_TENANT = ''common''"

text \<open>The result of a run: the store it leaves, what it passed to \<^verbatim>\<open>output\<close>,
  what was printed, and the exit code.\<close>

record run =
  final_store :: store
  result :: check_result
  lines :: "printed list"
  exit_code :: int

definition finish :: "check_env \<Rightarrow> store \<Rightarrow> check_result \<Rightarrow> run" where
  "finish E st r =
     \<lparr>final_store = st, result = r, lines = fst (output_result (json E) r),
      exit_code = snd (output_result (json E) r)\<rparr>"

definition needs_auth :: "string \<Rightarrow> check_result" where
  "needs_auth reason =
     \<lparr>status = NeedsAuth, expiresIn = None, cr_account = None, error = Some reason\<rparr>"

definition valid :: "int \<Rightarrow> string \<Rightarrow> check_result" where
  "valid secs acct =
     \<lparr>status = Valid, expiresIn = Some secs, cr_account = Some acct, error = None\<rparr>"

text \<open>The request of the silent refresh, from the stored credential.\<close>

definition refreshRequest :: "check_env \<Rightarrow> credential \<Rightarrow> refresh_request" where
  "refreshRequest E credential =
     \<lparr>rq_clientId = nullish (clientId credential) DEFAULT_CLIENT_ID,
      rq_authority = ''https://login.microsoftonline.com/'' @ nullish (tenantId credential) DEFAULT_TENANT,
      rq_refreshToken = the (refreshToken credential),
      rq_scopes = gs_user (GRAPH_SCOPES E) @ gs_mail (GRAPH_SCOPES E) @ gs_calendar (GRAPH_SCOPES E)\<rparr>"

text \<open>The object literal \<^verbatim>\<open>newCredential\<close>.\<close>

definition newCredential :: "check_env \<Rightarrow> credential \<Rightarrow> auth_result \<Rightarrow> credential" where
  "newCredential E credential r =
     \<lparr>accessToken = ar_accessToken r,
      refreshToken = (case ar_refreshToken r of None \<Rightarrow> refreshToken credential | Some t \<Rightarrow> Some t),
      expiresAt = (case ar_expiresOn r of Some e \<Rightarrow> e | None \<Rightarrow> t_default E + 3600000),
      account = (case ar_account r of
                   None \<Rightarrow> account credential
                 | Some a \<Rightarrow> nullish (username a) (account credential)),
      scopes = (case ar_scopes r of
                  None \<Rightarrow> scopes credential
                | Some ss \<Rightarrow> if length ss > 0 then ss else scopes credential),
      clientId = clientId credential,
      tenantId = tenantId credential\<rparr>"

text \<open>
  \<^verbatim>\<open>main\<close> of check-auth.ts (named \<open>check_auth_main\<close> here). Every call of \<^verbatim>\<open>output\<close> ends the process, so each
  branch is one \<open>finish\<close>.
\<close>

definition check_auth_main :: "check_env \<Rightarrow> store \<Rightarrow> run" where
  "check_auth_main E st =
     (case getCredential st ''microsoft-graph'' (profile E) of
        None \<Rightarrow> finish E st (needs_auth ''No credentials found'')
      | Some credential \<Rightarrow>
          if \<not> isTokenExpired (t_expired E) credential then
            finish E st
              (valid (max 0 ((expiresAt credential - t_valid E) div 1000)) (account credential))
          else if \<not> truthy (refreshToken credential) then
            finish E st (needs_auth ''Token expired, no refresh token'')
          else
            (case provider E (refreshRequest E credential) of
               Threw e \<Rightarrow> finish E st (needs_auth (''Refresh failed: '' @ message e))
             | Returned None \<Rightarrow> finish E st (needs_auth ''Refresh returned no result'')
             | Returned (Some r) \<Rightarrow>
                 (let c' = newCredential E credential r;
                      st' = setCredential st ''microsoft-graph'' (profile E) c'
                  in finish E st'
                       (valid (max 0 ((expiresAt c' - t_refreshed E) div 1000)) (account c')))))"


section \<open>check-auth-complete.ts\<close>

datatype complete_status = Complete | Pending | Failed

record complete_result =
  cc_status :: complete_status
  cc_account :: "string option"
  cc_error :: "string option"

datatype complete_printed = CompleteJson complete_result | CompleteText string

text \<open>
  \<^verbatim>\<open>output\<close> of check-auth-complete.ts (named \<open>output_complete\<close> here): prints the
  result and ends the process with code 0 for "complete" and 1 otherwise.
\<close>

definition output_complete :: "bool \<Rightarrow> complete_result \<Rightarrow> complete_printed list \<times> int" where
  "output_complete as_json res =
     ((if as_json then [CompleteJson res]
       else if cc_status res = Complete then
         [CompleteText ''Authentication complete!'']
         @ (if truthy (cc_account res)
            then [CompleteText (''Account: '' @ the (cc_account res))] else [])
       else if cc_status res = Pending then
         [CompleteText ''Authentication still pending'']
         @ (if truthy (cc_error res)
            then [CompleteText (''Note: '' @ the (cc_error res))] else [])
       else
         [CompleteText ''Authentication failed'']
         @ (if truthy (cc_error res)
            then [CompleteText (''Error: '' @ the (cc_error res))] else [])),
      (if cc_status res = Complete then 0 else 1))"

text \<open>
  What one run of check-auth-complete.ts meets: its flags and the clock, which
  \<^verbatim>\<open>isTokenExpired\<close> reads once.
\<close>

record complete_env =
  cc_profile :: string
  cc_json :: bool
  cc_now :: int

text \<open>The result of a run: what it passed to \<^verbatim>\<open>output\<close>, what was printed, and the
  exit code. The script never writes to the store.\<close>

record complete_run =
  cc_result :: complete_result
  cc_lines :: "complete_printed list"
  cc_exit :: int

definition finish_complete :: "complete_env \<Rightarrow> complete_result \<Rightarrow> complete_run" where
  "finish_complete E r =
     \<lparr>cc_result = r, cc_lines = fst (output_complete (cc_json E) r),
      cc_exit = snd (output_complete (cc_json E) r)\<rparr>"

text \<open>\<^verbatim>\<open>main\<close> of check-auth-complete.ts (named \<open>check_auth_complete_main\<close> here).\<close>

definition check_auth_complete_main :: "complete_env \<Rightarrow> store \<Rightarrow> complete_run" where
  "check_auth_complete_main E st =
     (case getCredential st ''microsoft-graph'' (cc_profile E) of
        None \<Rightarrow>
          finish_complete E
            \<lparr>cc_status = Pending, cc_account = None, cc_error = Some ''No credentials found yet''\<rparr>
      | Some credential \<Rightarrow>
          if \<not> isTokenExpired (cc_now E) credential then
            finish_complete E
              \<lparr>cc_status = Complete, cc_account = Some (account credential), cc_error = None\<rparr>
          else
            finish_complete E
              \<lparr>cc_status = Failed, cc_account = None,
               cc_error = Some ''Credentials expired - please try authenticating again''\<rparr>)"

section \<open>auth.ts: the --list and --delete branches\<close>

text \<open>\<^verbatim>\<open>xs.join(sep)\<close>\<close>

fun join :: "string \<Rightarrow> string list \<Rightarrow> string" where
  "join sep [] = []"
| "join sep [x] = x"
| "join sep (x # y # ys) = x @ sep @ join sep (y # ys)"

text \<open>
  The local constant \<^verbatim>\<open>expired\<close> of the --list loop:
  \<^verbatim>\<open>new Date(cred.expiresAt) < new Date()\<close>, a comparison of the two time values.
\<close>

definition expired :: "int \<Rightarrow> credential \<Rightarrow> bool" where
  "expired now cred = (expiresAt cred < now)"

text \<open>The lines the loop prints for one profile that has a credential.\<close>

definition profileBlock :: "int \<Rightarrow> string \<Rightarrow> credential \<Rightarrow> string list" where
  "profileBlock now name cred =
     [''  '' @ name @ '':'',
      ''    Account: '' @ account cred,
      ''    Scopes: '' @ join '', '' (scopes cred)]
     @ (if truthy (clientId cred) then [''    Client ID: '' @ the (clientId cred)] else [])
     @ (if truthy (tenantId cred) then [''    Tenant ID: '' @ the (tenantId cred)] else [])
     @ [''    Status: '' @ (if expired now cred then ''EXPIRED'' else ''Valid''), '''']"

text \<open>
  The loop over \<^verbatim>\<open>listProfiles("microsoft-graph")\<close>: one block for each profile whose
  credential is found, paired with the profile's name. The clock is read anew in each
  round; \<open>clock i\<close> is the reading of round \<open>i\<close>.
\<close>

definition listBlocks :: "(nat \<Rightarrow> int) \<Rightarrow> store \<Rightarrow> (string \<times> string list) list" where
  "listBlocks clock st =
     concat (map (\<lambda>(i, name).
                (case getCredential st ''microsoft-graph'' name of
                   None \<Rightarrow> []
                 | Some cred \<Rightarrow> [(name, profileBlock (clock i) name cred)]))
             (enumerate 0 (listProfiles st ''microsoft-graph'')))"

record auth_flags =
  af_profile :: string
  af_list :: bool
  af_delete :: bool

record auth_run =
  a_store :: store
  a_lines :: "string list"
  a_exit :: int

text \<open>
  \<^verbatim>\<open>main\<close> of auth.ts (named \<open>auth_main\<close> here). A branch that returns lets the
  process end with code 0. The device-code flow of the last branch runs through
  lib/graph-client and the identity provider, which are not among the sources: it is the
  parameter \<open>authenticate\<close>.
\<close>

definition auth_main ::
  "(store \<Rightarrow> auth_run) \<Rightarrow> auth_flags \<Rightarrow> (nat \<Rightarrow> int) \<Rightarrow> store \<Rightarrow> auth_run" where
  "auth_main authenticate values clock st =
     (if af_list values then
        (let profiles = listProfiles st ''microsoft-graph'' in
         \<lparr>a_store = st,
          a_lines =
            (if length profiles = 0 then
               [''No credential profiles found.'', ''Run 'bun run auth.ts' to create one.'']
             else
               (''Microsoft Graph credential profiles:'' @ [CHR 0x0A])
               # concat (map snd (listBlocks clock st))),
          a_exit = 0\<rparr>)
      else if af_delete values then
        (let (st', deleted) = deleteCredential st ''microsoft-graph'' (af_profile values) in
         \<lparr>a_store = st',
          a_lines =
            (if deleted then [''Deleted credential profile: '' @ af_profile values]
             else [''Profile not found: '' @ af_profile values]),
          a_exit = 0\<rparr>)
      else authenticate st)"

text \<open>The profiles that a run of --list shows: those it prints a block for.\<close>

definition shownProfiles :: "(nat \<Rightarrow> int) \<Rightarrow> store \<Rightarrow> string list" where
  "shownProfiles clock st = map fst (listBlocks clock st)"

section \<open>JavaScript dates\<close>

text \<open>
  A \<^verbatim>\<open>Date\<close> holds a time value, milliseconds since the epoch and at most 8.64e15
  in magnitude, or is an Invalid Date (\<open>None\<close>). The day and calendar arithmetic is that
  of the language standard (Day, TimeWithinDay, DayFromYear, YearFromTime, MonthFromTime,
  DateFromTime, MakeTime, MakeDay, MakeDate, TimeClip), on mathematical integers: the
  code computes in doubles, which are exact up to 2^53, and whatever a Date method computes
  beyond that is beyond the range of time values, rounded or not, and gives an Invalid
  Date either way.
\<close>

type_synonym jsdate = "int option"

definition msPerDay :: int where
  "msPerDay = 86400000"

definition Day :: "int \<Rightarrow> int" where
  "Day t = t div msPerDay"

definition TimeWithinDay :: "int \<Rightarrow> int" where
  "TimeWithinDay t = t mod msPerDay"

definition DayFromYear :: "int \<Rightarrow> int" where
  "DayFromYear y = 365 * (y - 1970) + (y - 1969) div 4 - (y - 1901) div 100 + (y - 1601) div 400"

definition InLeapYear :: "int \<Rightarrow> bool" where
  "InLeapYear y = (y mod 4 = 0 \<and> (y mod 100 \<noteq> 0 \<or> y mod 400 = 0))"

text \<open>
  YearFromTime is the largest year whose first day is not after the given day: a search
  upwards from a year that is not after it. That the search ends, and that it finds this
  year, is proved with the properties of the calendar arithmetic below.
\<close>

function findYear :: "int \<Rightarrow> int \<Rightarrow> int" where
  "findYear d y = (if DayFromYear (y + 1) \<le> d then findYear d (y + 1) else y)"
  by pat_completeness auto

definition YearFromDay :: "int \<Rightarrow> int" where
  "YearFromDay d = findYear d (1970 + (if d < 0 then d div 365 else d div 366))"

text \<open>The day within the year on which month \<open>m\<close> (0 to 11) begins.\<close>

definition monthStart :: "bool \<Rightarrow> int \<Rightarrow> int" where
  "monthStart leap m =
     (if m = 0 then 0 else if m = 1 then 31
      else (if leap then 1 else 0) +
        (if m = 2 then 59 else if m = 3 then 90 else if m = 4 then 120 else if m = 5 then 151
         else if m = 6 then 181 else if m = 7 then 212 else if m = 8 then 243
         else if m = 9 then 273 else if m = 10 then 304 else 334))"

definition MonthFromDayInYear :: "bool \<Rightarrow> int \<Rightarrow> int" where
  "MonthFromDayInYear leap d =
     (let l = (if leap then 1 else 0) in
      if d < 31 then 0 else if d < 59 + l then 1 else if d < 90 + l then 2
      else if d < 120 + l then 3 else if d < 151 + l then 4 else if d < 181 + l then 5
      else if d < 212 + l then 6 else if d < 243 + l then 7 else if d < 273 + l then 8
      else if d < 304 + l then 9 else if d < 334 + l then 10 else 11)"

text \<open>The number of days of month \<open>m\<close> (0 to 11).\<close>

definition DaysInMonth :: "bool \<Rightarrow> int \<Rightarrow> int" where
  "DaysInMonth leap m =
     (if m = 1 then (if leap then 29 else 28)
      else if m = 3 \<or> m = 5 \<or> m = 8 \<or> m = 10 then 30 else 31)"

definition YearFromTime :: "int \<Rightarrow> int" where
  "YearFromTime t = YearFromDay (Day t)"

definition DayWithinYear :: "int \<Rightarrow> int" where
  "DayWithinYear t = Day t - DayFromYear (YearFromTime t)"

definition MonthFromTime :: "int \<Rightarrow> int" where
  "MonthFromTime t = MonthFromDayInYear (InLeapYear (YearFromTime t)) (DayWithinYear t)"

definition DateFromTime :: "int \<Rightarrow> int" where
  "DateFromTime t =
     DayWithinYear t - monthStart (InLeapYear (YearFromTime t)) (MonthFromTime t) + 1"

definition MakeTime :: "int \<Rightarrow> int \<Rightarrow> int \<Rightarrow> int \<Rightarrow> int" where
  "MakeTime hour minute sec ms = hour * 3600000 + minute * 60000 + sec * 1000 + ms"

definition MakeDay :: "int \<Rightarrow> int \<Rightarrow> int \<Rightarrow> int" where
  "MakeDay year month date =
     (let ym = year + month div 12; mn = month mod 12
      in DayFromYear ym + monthStart (InLeapYear ym) mn + date - 1)"

definition MakeDate :: "int \<Rightarrow> int \<Rightarrow> int" where
  "MakeDate day time = day * msPerDay + time"

text \<open>\<^verbatim>\<open>TimeClip\<close>: a time value beyond the range is no time value.\<close>

definition TimeClip :: "int \<Rightarrow> jsdate" where
  "TimeClip v = (if \<bar>v\<bar> \<le> 8640000000000000 then Some v else None)"

text \<open>
  A number: NaN, an integer, or an infinity. What the platform gives beyond the code: the
  offset of the local time zone, which changes over the year where the zone has daylight
  saving (\<open>offsetAtUTC\<close> at a time value, \<open>offsetAtLocal\<close> at a local time, the
  standard's LocalTZA with its flag true and false; the offset of a zone is less than a
  day), \<^verbatim>\<open>new Date(string)\<close>, \<^verbatim>\<open>toISOString\<close> (which throws on an Invalid Date),
  the Number for an integer above 2^53 (rounded to a double, or an infinity) and the text
  of a Number above 2^53.
\<close>

datatype number = NaN | Num int | PosInfinity | NegInfinity

record platform =
  offsetAtUTC :: "int \<Rightarrow> int"
  offsetAtLocal :: "int \<Rightarrow> int"
  dateParse :: "string \<Rightarrow> jsdate"
  toISOString :: "jsdate \<Rightarrow> string outcome"
  numberFor :: "nat \<Rightarrow> number"
  bigNumberText :: "int \<Rightarrow> string"

text \<open>\<^verbatim>\<open>LocalTime\<close> and \<^verbatim>\<open>UTC\<close> of the standard.\<close>

definition LocalTime :: "platform \<Rightarrow> int \<Rightarrow> int" where
  "LocalTime P t = t + offsetAtUTC P t"

definition UTC :: "platform \<Rightarrow> int \<Rightarrow> int" where
  "UTC P x = x - offsetAtLocal P x"

text \<open>
  The last step of every setter, \<^verbatim>\<open>TimeClip(UTC(newDate))\<close>: the Date for a local
  time.
\<close>

definition fromLocal :: "platform \<Rightarrow> int \<Rightarrow> jsdate" where
  "fromLocal P x = TimeClip (UTC P x)"

text \<open>
  A local time that the zone's clock shows: read as a time value and shown again as local
  time it is itself. The local times that a change of the offset skips are not.
\<close>

definition onClock :: "platform \<Rightarrow> int \<Rightarrow> bool" where
  "onClock P x = (LocalTime P (UTC P x) = x)"

text \<open>
  The methods of \<^verbatim>\<open>Date\<close> that calendar.ts calls, on a valid time value and with
  integer arguments.
\<close>

definition getDate :: "platform \<Rightarrow> int \<Rightarrow> int" where
  "getDate P t = DateFromTime (LocalTime P t)"

definition getMonth :: "platform \<Rightarrow> int \<Rightarrow> int" where
  "getMonth P t = MonthFromTime (LocalTime P t)"

definition getFullYear :: "platform \<Rightarrow> int \<Rightarrow> int" where
  "getFullYear P t = YearFromTime (LocalTime P t)"

definition setHours :: "platform \<Rightarrow> int \<Rightarrow> int \<Rightarrow> int \<Rightarrow> int \<Rightarrow> int \<Rightarrow> jsdate" where
  "setHours P hour minute sec ms t =
     fromLocal P (MakeDate (Day (LocalTime P t)) (MakeTime hour minute sec ms))"

definition setDate :: "platform \<Rightarrow> int \<Rightarrow> int \<Rightarrow> jsdate" where
  "setDate P dt t =
     fromLocal P (MakeDate (MakeDay (YearFromTime (LocalTime P t)) (MonthFromTime (LocalTime P t)) dt)
                    (TimeWithinDay (LocalTime P t)))"

definition setMonth :: "platform \<Rightarrow> int \<Rightarrow> int \<Rightarrow> jsdate" where
  "setMonth P m t =
     fromLocal P (MakeDate (MakeDay (YearFromTime (LocalTime P t)) m (DateFromTime (LocalTime P t)))
                    (TimeWithinDay (LocalTime P t)))"

definition setFullYear :: "platform \<Rightarrow> int \<Rightarrow> int \<Rightarrow> jsdate" where
  "setFullYear P y t =
     fromLocal P (MakeDate (MakeDay y (MonthFromTime (LocalTime P t)) (DateFromTime (LocalTime P t)))
                    (TimeWithinDay (LocalTime P t)))"

section \<open>calendar.ts\<close>

text \<open>
  Strings are lists of bytes. \<^verbatim>\<open>toLowerCase\<close> is modelled on the letters A to Z and
  leaves every other byte as it is; no other character has a lower case that occurs in
  the words and the pattern the result is compared with, so the comparisons come out the
  same. White space is the ASCII white space.
\<close>

definition toLower :: "char \<Rightarrow> char" where
  "toLower c = (if 65 \<le> (of_char c :: nat) \<and> (of_char c :: nat) \<le> 90
                then char_of ((of_char c :: nat) + 32) else c)"

definition toLowerCase :: "string \<Rightarrow> string" where
  "toLowerCase s = map toLower s"

definition isDigit :: "char \<Rightarrow> bool" where
  "isDigit c = (48 \<le> (of_char c :: nat) \<and> (of_char c :: nat) \<le> 57)"

definition isSpace :: "char \<Rightarrow> bool" where
  "isSpace c = ((of_char c :: nat) \<in> {9, 10, 11, 12, 13, 32})"

definition digitsValue :: "string \<Rightarrow> nat" where
  "digitsValue ds = foldl (\<lambda>acc c. 10 * acc + (of_char c - 48)) 0 ds"

text \<open>
  \<^verbatim>\<open>parseInt(s)\<close> and \<^verbatim>\<open>parseInt(s, 10)\<close> on a string that does not start with
  \<^verbatim>\<open>0x\<close>: leading white space, a sign, then the longest run of digits; NaN when
  there is no digit. The result is the Number for the integer the digits denote: the
  integer itself up to 2^53, what the platform rounds it to above.
\<close>

fun negate :: "number \<Rightarrow> number" where
  "negate NaN = NaN"
| "negate (Num i) = Num (- i)"
| "negate PosInfinity = NegInfinity"
| "negate NegInfinity = PosInfinity"

definition parseInt :: "platform \<Rightarrow> string \<Rightarrow> number" where
  "parseInt P s =
     (let s1 = dropWhile isSpace s;
          neg = (s1 \<noteq> [] \<and> hd s1 = CHR ''-'');
          s2 = (if s1 \<noteq> [] \<and> (hd s1 = CHR ''-'' \<or> hd s1 = CHR ''+'') then tl s1 else s1);
          ds = takeWhile isDigit s2;
          n = (if digitsValue ds \<le> 2 ^ 53 then Num (int (digitsValue ds))
               else numberFor P (digitsValue ds))
      in if ds = [] then NaN else if neg then negate n else n)"

text \<open>A number in a template literal.\<close>

fun numberText :: "platform \<Rightarrow> number \<Rightarrow> string" where
  "numberText P NaN = ''NaN''"
| "numberText P (Num i) = (if \<bar>i\<bar> \<le> 2 ^ 53 then show_int i else bigNumberText P i)"
| "numberText P PosInfinity = ''Infinity''"
| "numberText P NegInfinity = ''-Infinity''"

text \<open>
  \<^verbatim>\<open>lower.match(/^\+(\d+)([dmy])$/)\<close>: the two groups, amount and unit, when the whole
  string is a plus sign, one or more digits and one of the letters d, m, y.
\<close>

definition relativeMatch :: "string \<Rightarrow> (string \<times> char) option" where
  "relativeMatch lower =
     (case lower of
        [] \<Rightarrow> None
      | c # rest \<Rightarrow>
          (let amount = takeWhile isDigit rest; unit = dropWhile isDigit rest
           in if c = CHR ''+'' \<and> amount \<noteq> [] \<and> (unit = ''d'' \<or> unit = ''m'' \<or> unit = ''y'')
              then Some (amount, hd unit) else None))"

text \<open>
  A setter called with the sum of a getter and a parsed amount, as in
  \<^verbatim>\<open>d.setDate(d.getDate() + parseInt(amount))\<close>: with an amount that is not finite
  the sum is not finite and the Date becomes invalid.
\<close>

fun setBy :: "(int \<Rightarrow> int \<Rightarrow> jsdate) \<Rightarrow> int \<Rightarrow> number \<Rightarrow> int \<Rightarrow> jsdate" where
  "setBy setter current (Num n) d = setter (current + n) d"
| "setBy setter current amount d = None"

text \<open>
  \<^verbatim>\<open>parseDate(input, baseDate)\<close>. Each branch works on a copy of the base date, so the
  base date itself is never changed. A method on an Invalid Date leaves it invalid.
\<close>

definition parseDate :: "platform \<Rightarrow> string \<Rightarrow> jsdate \<Rightarrow> jsdate" where
  "parseDate P input baseDate =
     (let lower = toLowerCase input in
      if lower = ''today'' then Option.bind baseDate (setHours P 0 0 0 0)
      else if lower = ''tomorrow'' then
        Option.bind (Option.bind baseDate (\<lambda>d. setDate P (getDate P d + 1) d))
          (setHours P 0 0 0 0)
      else
        (case relativeMatch lower of
           Some (amount, unit) \<Rightarrow>
             if unit = CHR ''d'' then
               Option.bind baseDate (\<lambda>d. setBy (setDate P) (getDate P d) (parseInt P amount) d)
             else if unit = CHR ''m'' then
               Option.bind baseDate (\<lambda>d. setBy (setMonth P) (getMonth P d) (parseInt P amount) d)
             else if unit = CHR ''y'' then
               Option.bind baseDate
                 (\<lambda>d. setBy (setFullYear P) (getFullYear P d) (parseInt P amount) d)
             else baseDate
         | None \<Rightarrow> dateParse P input))"

text \<open>
  The flags of calendar.ts. \<open>cf_positional\<close> is \<^verbatim>\<open>positionals[0]\<close>; the command is
  \<^verbatim>\<open>positionals[0] || "list"\<close>.
\<close>

record calendar_flags =
  cf_positional :: "string option"
  cf_profile :: string
  cf_top :: string
  cf_start :: "string option"
  cf_end :: "string option"
  cf_query :: "string option"
  cf_id :: "string option"

definition command :: "calendar_flags \<Rightarrow> string" where
  "command values = (if truthy (cf_positional values) then the (cf_positional values) else ''list'')"

text \<open>
  The date range, from the first \<^verbatim>\<open>switch (command)\<close> of \<^verbatim>\<open>main\<close>. Two clock
  readings enter: \<open>now\<close> is \<^verbatim>\<open>const now = new Date()\<close> and \<open>now_default\<close> is the
  default argument \<^verbatim>\<open>baseDate = new Date()\<close> of the call \<^verbatim>\<open>parseDate(values.start)\<close>.
\<close>

definition dateRange :: "platform \<Rightarrow> calendar_flags \<Rightarrow> int \<Rightarrow> int \<Rightarrow> jsdate \<times> jsdate" where
  "dateRange P values now now_default =
     (if command values = ''today'' then
        (setHours P 0 0 0 0 now, setHours P 23 59 59 999 now)
      else if command values = ''week'' then
        (setHours P 0 0 0 0 now, setDate P (getDate P now + 7) now)
      else
        (let startDate = (if truthy (cf_start values)
                          then parseDate P (the (cf_start values)) (Some now_default)
                          else Some now);
             endDate = (if truthy (cf_end values)
                        then parseDate P (the (cf_end values)) startDate
                        else parseDate P ''+30d'' startDate)
         in (startDate, endDate)))"

text \<open>
  A response of \<^verbatim>\<open>fetch\<close>: the status, the body as \<^verbatim>\<open>response.text()\<close> gives it
  and what \<^verbatim>\<open>response.json()\<close> gives (it throws on a body that is not JSON).
\<close>

record 'j http_response =
  http_status :: nat
  http_text :: string
  http_json :: "'j outcome"

text \<open>\<^verbatim>\<open>response.ok\<close>: a status from 200 to 299.\<close>

definition ok :: "'j http_response \<Rightarrow> bool" where
  "ok response = (200 \<le> http_status response \<and> http_status response \<le> 299)"

text \<open>
  A \<^verbatim>\<open>ScriptResponse\<close>: success with its data, an error with its message, or a
  response made by \<^verbatim>\<open>ensureAuth\<close> (its status, such as "auth_required", and the
  rest of it).
\<close>

datatype ('a, 'd) script_response = Success 'd | ErrorResponse string | AuthResponse string 'a

fun response_status :: "('a, 'd) script_response \<Rightarrow> string" where
  "response_status (Success d) = ''success''"
| "response_status (ErrorResponse e) = ''error''"
| "response_status (AuthResponse s a) = s"

text \<open>The answer of \<^verbatim>\<open>ensureAuth\<close>: \<^verbatim>\<open>{ok: true, token}\<close> or \<^verbatim>\<open>{ok: false, response}\<close>.\<close>

datatype ('a, 'd) auth = AuthOk string | AuthNot "('a, 'd) script_response"

text \<open>
  What a run of calendar.ts meets: the platform, \<^verbatim>\<open>GRAPH_SCOPES\<close> and
  \<^verbatim>\<open>ensureAuth\<close> (lib/graph-client and lib/auth-handler are not among the sources),
  the network behind \<^verbatim>\<open>fetch\<close> (the URL and the bearer token go in; it throws or
  answers), the mapping of a parsed body to display records
  (\<^verbatim>\<open>response.value.map(formatEventData)\<close> and \<^verbatim>\<open>formatEventData(event)\<close>, which throw
  on a body of another shape), and the two clock readings: \<open>t_now\<close> is
  \<^verbatim>\<open>const now = new Date()\<close> and \<open>t_base\<close> is the default argument
  \<^verbatim>\<open>baseDate = new Date()\<close> of the call \<^verbatim>\<open>parseDate(values.start)\<close>.
\<close>

record ('a, 'j, 'd) calendar_env =
  platform :: platform
  scopes_const :: graph_scopes
  ensureAuth :: "string \<Rightarrow> string \<Rightarrow> string list \<Rightarrow> ('a, 'd) auth"
  fetch :: "string \<Rightarrow> string \<Rightarrow> 'j http_response outcome"
  eventsData :: "'j \<Rightarrow> 'd outcome"
  eventData :: "'j \<Rightarrow> 'd outcome"
  t_now :: int
  t_base :: int

text \<open>
  \<^verbatim>\<open>graphRequest(token, endpoint)\<close>, with the list of the requests it sent: one
  \<^verbatim>\<open>fetch\<close>, whatever the answer.
\<close>

definition graphRequest ::
  "('a, 'j, 'd) calendar_env \<Rightarrow> string \<Rightarrow> string \<Rightarrow> (string \<times> string) list \<times> 'j outcome" where
  "graphRequest E token endpoint =
     (let url = ''https://graph.microsoft.com/v1.0'' @ endpoint in
      ([(url, token)],
       (case fetch E url token of
          Threw e \<Rightarrow> Threw e
        | Returned response \<Rightarrow>
            if \<not> ok response then
              Threw (Error (''Graph API error: '' @ show_nat (http_status response) @ '' - ''
                            @ http_text response))
            else http_json response)))"

text \<open>
  A run of calendar.ts: the requests sent, the responses printed by \<^verbatim>\<open>output\<close> and
  the exit code. \<^verbatim>\<open>output\<close> (named \<open>output_response\<close> here) prints one response and
  ends the process.
\<close>

record ('a, 'd) calendar_run =
  sent :: "(string \<times> string) list"
  responses :: "('a, 'd) script_response list"
  calendar_exit :: int

definition output_response ::
  "(string \<times> string) list \<Rightarrow> ('a, 'd) script_response \<Rightarrow> ('a, 'd) calendar_run" where
  "output_response reqs response =
     \<lparr>sent = reqs, responses = [response],
      calendar_exit = (if response_status response = ''success'' then 0 else 1)\<rparr>"

text \<open>The \<^verbatim>\<open>catch\<close> clause of \<^verbatim>\<open>main\<close>.\<close>

definition caught :: "(string \<times> string) list \<Rightarrow> thrown \<Rightarrow> ('a, 'd) calendar_run" where
  "caught reqs e = output_response reqs (ErrorResponse (message e))"

text \<open>\<^verbatim>\<open>values.query.replace(/'/g, "''")\<close>\<close>

definition escapeQuotes :: "string \<Rightarrow> string" where
  "escapeQuotes q = concat (map (\<lambda>c. if c = CHR 0x27 then [c, c] else [c]) q)"

text \<open>
  One request and its outcome inside the \<^verbatim>\<open>try\<close> block: a thrown error goes to the
  \<^verbatim>\<open>catch\<close> clause, a body is mapped and printed as a success.
\<close>

definition request ::
  "('a, 'j, 'd) calendar_env \<Rightarrow> ('j \<Rightarrow> 'd outcome) \<Rightarrow> string \<Rightarrow> string \<Rightarrow> ('a, 'd) calendar_run" where
  "request E display token endpoint =
     (let (reqs, r) = graphRequest E token endpoint in
      case r of
        Threw e \<Rightarrow> caught reqs e
      | Returned response \<Rightarrow>
          (case display response of
             Threw e \<Rightarrow> caught reqs e
           | Returned data \<Rightarrow> output_response reqs (Success data)))"

text \<open>\<^verbatim>\<open>main\<close> of calendar.ts (named \<open>calendar_main\<close> here).\<close>

definition calendar_main ::
  "('a, 'j, 'd) calendar_env \<Rightarrow> calendar_flags \<Rightarrow> ('a, 'd) calendar_run" where
  "calendar_main E values =
     (let requiredScopes = gs_user (scopes_const E) @ gs_calendar (scopes_const E) in
      case ensureAuth E ''microsoft-graph'' (cf_profile values) requiredScopes of
        AuthNot response \<Rightarrow> output_response [] response
      | AuthOk token \<Rightarrow>
          (let top = parseInt (platform E) (cf_top values);
               (startDate, endDate) = dateRange (platform E) values (t_now E) (t_base E)
           in
           if command values = ''list'' \<or> command values = ''today'' \<or> command values = ''week''
           then
             (case toISOString (platform E) startDate of
                Threw e \<Rightarrow> caught [] e
              | Returned startISO \<Rightarrow>
                  (case toISOString (platform E) endDate of
                     Threw e \<Rightarrow> caught [] e
                   | Returned endISO \<Rightarrow>
                       request E (eventsData E) token
                         (''/me/calendarView?startDateTime='' @ startISO @ ''&endDateTime=''
                          @ endISO @ ''&$top='' @ numberText (platform E) top @ ''&$orderby=start/dateTime'')))
           else if command values = ''view'' then
             (if \<not> truthy (cf_id values) then
                output_response [] (ErrorResponse ''--id is required for 'view' command'')
              else request E (eventData E) token (''/me/events/'' @ the (cf_id values)))
           else if command values = ''search'' then
             (if \<not> truthy (cf_query values) then
                output_response [] (ErrorResponse ''--query is required for 'search' command'')
              else
                (let query = escapeQuotes (the (cf_query values)) in
                 request E (eventsData E) token
                   (''/me/events?$filter=contains(subject,'' @ [CHR 0x27] @ query @ [CHR 0x27]
                    @ '')&$top='' @ numberText (platform E) top @ ''&$orderby=start/dateTime desc'')))
           else
             output_response []
               (ErrorResponse (''Unknown command: '' @ command values @ ''. Use --help for usage.''))))"

section \<open>Sample inputs\<close>

text \<open>
  A stored credential that expires at time 5000, a store that holds it under the profile
  "default", two provider results (the second carries no expiry, no account and no scope)
  and a run of check-auth.ts at time 6000, when the credential has expired.
\<close>

definition c0 :: credential where
  "c0 = \<lparr>accessToken = ''old-token'', refreshToken = Some ''rt-1'', expiresAt = 5000,
         account = ''ada@example.org'', scopes = [''User.Read''],
         clientId = None, tenantId = Some ''contoso''\<rparr>"

definition st0 :: store where
  "st0 = [(''microsoft-graph'', [(''default'', c0)])]"

definition r0 :: auth_result where
  "r0 = \<lparr>ar_accessToken = ''new-token'', ar_refreshToken = None, ar_expiresOn = Some 9000000,
         ar_account = Some \<lparr>username = Some ''ada@contoso.example''\<rparr>,
         ar_scopes = Some [''User.Read'', ''Mail.Read'']\<rparr>"

definition r1 :: auth_result where
  "r1 = \<lparr>ar_accessToken = ''new-token'', ar_refreshToken = Some ''rt-2'', ar_expiresOn = None,
         ar_account = None, ar_scopes = Some []\<rparr>"

definition E0 :: check_env where
  "E0 = \<lparr>profile = ''default'', json = True,
         GRAPH_SCOPES = \<lparr>gs_user = [''User.Read''], gs_mail = [''Mail.Read''],
                         gs_calendar = [''Calendars.Read'']\<rparr>,
         provider = (\<lambda>rq. if rq_refreshToken rq = ''rt-1'' then Returned (Some r0)
                           else Threw (Error ''invalid_grant'')),
         t_expired = 6000, t_valid = 6001, t_default = 6002, t_refreshed = 6003\<rparr>"

definition E1 :: check_env where
  "E1 = E0\<lparr>provider := (\<lambda>rq. Returned (Some r1))\<rparr>"


text \<open>
  A store with two profiles, a run of \<^verbatim>\<open>auth.ts --list\<close>, and a stand-in for the
  device-code branch.
\<close>

definition st1 :: store where
  "st1 = [(''microsoft-graph'',
           [(''default'', c0), (''work'', c0\<lparr>account := ''ada@work.example''\<rparr>)])]"

definition auth0 :: "store \<Rightarrow> auth_run" where
  "auth0 st = \<lparr>a_store = st, a_lines = [''(device-code flow)''], a_exit = 0\<rparr>"

definition list_flags :: auth_flags where
  "list_flags = \<lparr>af_profile = ''default'', af_list = True, af_delete = False\<rparr>"

text \<open>
  Two platforms. The first is one hour east of UTC all year. The second has a zone that
  moves from five to four hours west of UTC at 2024-03-10T07:00Z, as New York does; the
  local hour from 02:00 that this skips is read with the offset before the change. Their
  date parser, \<^verbatim>\<open>toISOString\<close> and big numbers are stand-ins: the parser finds no
  string valid, the time value is printed in decimal and every integer above 2^53 is taken
  for an infinity. Then a run of calendar.ts in which the Graph API answers every request
  with status 404.
\<close>

definition P0 :: platform where
  "P0 = \<lparr>offsetAtUTC = (\<lambda>t. 3600000), offsetAtLocal = (\<lambda>x. 3600000),
         dateParse = (\<lambda>s. None),
         toISOString = (\<lambda>d. case d of None \<Rightarrow> Threw (Error ''Invalid time value'')
                                 | Some t \<Rightarrow> Returned (show_int t)),
         numberFor = (\<lambda>n. PosInfinity), bigNumberText = (\<lambda>i. ''Infinity'')\<rparr>"

definition NY :: platform where
  "NY = P0\<lparr>offsetAtUTC := (\<lambda>t. if t < 1710054000000 then - 18000000 else - 14400000),
           offsetAtLocal := (\<lambda>x. if x < 1710039600000 then - 18000000 else - 14400000)\<rparr>"

definition flags0 :: calendar_flags where
  "flags0 = \<lparr>cf_positional = None, cf_profile = ''default'', cf_top = ''10'',
             cf_start = None, cf_end = None, cf_query = None, cf_id = None\<rparr>"

definition response404 :: "string http_response" where
  "response404 = \<lparr>http_status = 404, http_text = ''not found'', http_json = Returned ''{}''\<rparr>"

definition cal0 :: "(unit, string, string) calendar_env" where
  "cal0 = \<lparr>platform = P0,
           scopes_const = \<lparr>gs_user = [''User.Read''], gs_mail = [''Mail.Read''],
                           gs_calendar = [''Calendars.Read'']\<rparr>,
           ensureAuth = (\<lambda>service name required. AuthOk ''token-1''),
           fetch = (\<lambda>url token. Returned response404),
           eventsData = (\<lambda>j. Returned j), eventData = (\<lambda>j. Returned j),
           t_now = 1000, t_base = 1001\<rparr>"

section \<open>Properties of check-auth.ts\<close>

lemma exit_code_finish: "exit_code (finish E st r) = (if status r = Valid then 0 else 1)"
  by (simp add: finish_def output_result_def)

lemma result_finish: "result (finish E st r) = r"
  by (simp add: finish_def)

lemma final_store_finish: "final_store (finish E st r) = st"
  by (simp add: finish_def)



lemma get_set_same: "getCredential (setCredential st s p c) s p = Some c"
  by (simp add: getCredential_def setCredential_def update_conv' split: option.splits)

lemma get_set_other:
  "s' \<noteq> s \<or> p' \<noteq> p \<Longrightarrow> getCredential (setCredential st s p c) s' p' = getCredential st s' p'"
  by (auto simp: getCredential_def setCredential_def update_conv' split: option.splits)

text \<open>The run of a silent refresh that succeeds.\<close>

lemma main_refreshed:
  assumes "getCredential st ''microsoft-graph'' (profile E) = Some c"
    and "isTokenExpired (t_expired E) c"
    and "truthy (refreshToken c)"
    and "provider E (refreshRequest E c) = Returned (Some r)"
  shows "check_auth_main E st =
           finish E (setCredential st ''microsoft-graph'' (profile E) (newCredential E c r))
             (valid (max 0 ((expiresAt (newCredential E c r) - t_refreshed E) div 1000))
                (account (newCredential E c r)))"
  using assms by (simp add: check_auth_main_def Let_def)

lemma sample_refresh:
  "getCredential st0 ''microsoft-graph'' (profile E0) = Some c0"
  "isTokenExpired (t_expired E0) c0"
  "truthy (refreshToken c0)"
  "provider E0 (refreshRequest E0 c0) = Returned (Some r0)"
  by (simp_all add: getCredential_def st0_def E0_def isTokenExpired_def c0_def refreshRequest_def)

lemma sample_refresh1:
  "getCredential st0 ''microsoft-graph'' (profile E1) = Some c0"
  "isTokenExpired (t_expired E1) c0"
  "truthy (refreshToken c0)"
  "provider E1 (refreshRequest E1 c0) = Returned (Some r1)"
  by (simp_all add: getCredential_def st0_def E0_def E1_def isTokenExpired_def c0_def)

text \<open>
  C1. For every stored credential whose access token is expired and whose refresh token
  is present, a silent refresh in check-auth that succeeds (the provider returns a result;
  the script asks it only when the refresh token is a non-empty string) stores, under the
  same service and profile, a credential whose access token is the result's and whose
  expiry is the result's, and which keeps the old refresh token when the result carries
  none; every other entry of the store is as before; the status reported is "valid", with
  the seconds left of the new credential and its account, and the exit code is 0. The
  report is printed: the result as JSON in JSON mode, and otherwise the line
  "Auth status: Valid", the line of the account when the account is not empty, and the
  line of the minutes left.
\<close>

theorem C1_silent_refresh_success:
  assumes "getCredential st ''microsoft-graph'' (profile E) = Some c"
    and "isTokenExpired (t_expired E) c"
    and "refreshToken c = Some rt" and "rt \<noteq> []"
    and "provider E (refreshRequest E c) = Returned (Some r)"
  shows "\<exists>c'. getCredential (final_store (check_auth_main E st)) ''microsoft-graph'' (profile E)
                = Some c'
           \<and> accessToken c' = ar_accessToken r
           \<and> (\<forall>e. ar_expiresOn r = Some e \<longrightarrow> expiresAt c' = e)
           \<and> (ar_refreshToken r = None \<longrightarrow> refreshToken c' = Some rt)
           \<and> (\<forall>s p. s \<noteq> ''microsoft-graph'' \<or> p \<noteq> profile E \<longrightarrow>
                 getCredential (final_store (check_auth_main E st)) s p = getCredential st s p)
           \<and> status (result (check_auth_main E st)) = Valid
           \<and> exit_code (check_auth_main E st) = 0
           \<and> result (check_auth_main E st) =
               \<lparr>status = Valid,
                expiresIn = Some (max 0 ((expiresAt c' - t_refreshed E) div 1000)),
                cr_account = Some (account c'), error = None\<rparr>
           \<and> lines (check_auth_main E st) =
               (if json E then [Json (result (check_auth_main E st))]
                else [Text ''Auth status: Valid'']
                     @ (if account c' \<noteq> [] then [Text (''Account: '' @ account c')] else [])
                     @ [Text (''Expires in: ''
                              @ show_int ((max 0 ((expiresAt c' - t_refreshed E) div 1000) + 30) div 60)
                              @ '' minutes'')])"
proof -
  have t: "truthy (refreshToken c)" using assms(3,4) by simp
  let ?c = "newCredential E c r"
  let ?run = "finish E (setCredential st ''microsoft-graph'' (profile E) ?c)
                (valid (max 0 ((expiresAt ?c - t_refreshed E) div 1000)) (account ?c))"
  have m: "check_auth_main E st = ?run"
    by (rule main_refreshed [OF assms(1,2) t assms(5)])
  have g: "getCredential (final_store ?run) ''microsoft-graph'' (profile E) = Some ?c"
    by (simp add: final_store_finish get_set_same)
  have a: "accessToken ?c = ar_accessToken r"
    "\<forall>e. ar_expiresOn r = Some e \<longrightarrow> expiresAt ?c = e"
    "ar_refreshToken r = None \<longrightarrow> refreshToken ?c = Some rt"
    using assms(3) by (simp_all add: newCredential_def)
  have o: "\<forall>s p. s \<noteq> ''microsoft-graph'' \<or> p \<noteq> profile E \<longrightarrow>
             getCredential (final_store ?run) s p = getCredential st s p"
    by (auto simp: final_store_finish get_set_other)
  have v: "status (result ?run) = Valid" "exit_code ?run = 0"
    by (simp_all add: result_finish exit_code_finish valid_def)
  have res: "result ?run =
               \<lparr>status = Valid,
                expiresIn = Some (max 0 ((expiresAt ?c - t_refreshed E) div 1000)),
                cr_account = Some (account ?c), error = None\<rparr>"
    by (simp add: result_finish valid_def)
  have l: "lines ?run =
             (if json E then [Json (result ?run)]
              else [Text ''Auth status: Valid'']
                   @ (if account ?c \<noteq> [] then [Text (''Account: '' @ account ?c)] else [])
                   @ [Text (''Expires in: ''
                            @ show_int ((max 0 ((expiresAt ?c - t_refreshed E) div 1000) + 30) div 60)
                            @ '' minutes'')])"
    by (simp add: finish_def output_result_def valid_def)
  show ?thesis
    unfolding m
    by (rule exI [of _ ?c]) (intro conjI; (rule g a o v res l))
qed

theorem C1_silent_refresh_success_witness:
  "\<exists>c'. getCredential (final_store (check_auth_main E0 st0)) ''microsoft-graph'' ''default''
           = Some c'
      \<and> accessToken c' = ''new-token'' \<and> expiresAt c' = 9000000
      \<and> refreshToken c' = Some ''rt-1''
      \<and> getCredential (final_store (check_auth_main E0 st0)) ''microsoft-graph'' ''work'' = None
      \<and> status (result (check_auth_main E0 st0)) = Valid
      \<and> exit_code (check_auth_main E0 st0) = 0
      \<and> lines (check_auth_main E0 st0) =
          [Json \<lparr>status = Valid, expiresIn = Some 8993, cr_account = Some (account c'),
                  error = None\<rparr>]"
proof -
  have rt: "refreshToken c0 = Some ''rt-1''" "''rt-1'' \<noteq> []" by (simp_all add: c0_def)
  have p: "profile E0 = ''default''" "json E0 = True" "t_refreshed E0 = 6003"
    by (simp_all add: E0_def)
  have r: "ar_accessToken r0 = ''new-token''" "ar_expiresOn r0 = Some 9000000"
    "ar_refreshToken r0 = None"
    by (simp_all add: r0_def)
  have o: "getCredential st0 ''microsoft-graph'' ''work'' = None"
    by (simp add: getCredential_def st0_def)
  show ?thesis
    using C1_silent_refresh_success [OF sample_refresh(1,2) rt sample_refresh(4)]
    unfolding p r if_True using o by auto
qed

text \<open>
  C2. For every run of check-auth, the result is "needs-auth" with exit code 1 exactly
  when no credential is stored for the profile, or the stored credential is expired and
  has no refresh token (none, or the empty string), or the silent refresh is attempted and
  fails (the provider throws or returns no result). In each of these cases the result
  carries a non-empty reason in its error field, and the reason is printed: inside the
  JSON in JSON mode, on a line "Reason: ..." otherwise. In every other case the exit code
  is 0.
\<close>

theorem C2_needs_auth_exactly_when:
  "((status (result (check_auth_main E st)) = NeedsAuth \<and> exit_code (check_auth_main E st) = 1) =
     (getCredential st ''microsoft-graph'' (profile E) = None
      \<or> (\<exists>c. getCredential st ''microsoft-graph'' (profile E) = Some c
             \<and> isTokenExpired (t_expired E) c \<and> \<not> truthy (refreshToken c))
      \<or> (\<exists>c. getCredential st ''microsoft-graph'' (profile E) = Some c
             \<and> isTokenExpired (t_expired E) c \<and> truthy (refreshToken c)
             \<and> (\<forall>r. provider E (refreshRequest E c) \<noteq> Returned (Some r)))))
   \<and> (status (result (check_auth_main E st)) = NeedsAuth \<longrightarrow>
        (\<exists>reason. error (result (check_auth_main E st)) = Some reason \<and> reason \<noteq> []
           \<and> lines (check_auth_main E st) =
               (if json E then [Json (result (check_auth_main E st))]
                else [Text ''Auth status: Authentication required'',
                      Text (''Reason: '' @ reason)])))
   \<and> (status (result (check_auth_main E st)) = NeedsAuth \<or> exit_code (check_auth_main E st) = 0)"
proof (cases "getCredential st ''microsoft-graph'' (profile E)")
  case None
  then show ?thesis
    by (simp add: check_auth_main_def finish_def output_result_def needs_auth_def)
next
  case (Some c)
  show ?thesis
  proof (cases "isTokenExpired (t_expired E) c")
    case False
    with Some show ?thesis
      by (simp add: check_auth_main_def finish_def output_result_def valid_def)
  next
    case True
    note expired = this
    show ?thesis
    proof (cases "truthy (refreshToken c)")
      case False
      with Some expired show ?thesis
        by (simp add: check_auth_main_def finish_def output_result_def needs_auth_def)
    next
      case True
      show ?thesis
      proof (cases "provider E (refreshRequest E c)")
        case (Threw e)
        with Some expired True show ?thesis
          by (simp add: check_auth_main_def finish_def output_result_def needs_auth_def)
      next
        case (Returned ro)
        with Some expired True show ?thesis
          by (cases ro)
             (simp_all add: check_auth_main_def finish_def output_result_def needs_auth_def
                valid_def Let_def)
      qed
    qed
  qed
qed

theorem C2_needs_auth_exactly_when_witness:
  "status (result (check_auth_main E0 [])) = NeedsAuth \<and> exit_code (check_auth_main E0 []) = 1
   \<and> getCredential [] ''microsoft-graph'' (profile E0) = None
   \<and> error (result (check_auth_main E0 [])) = Some ''No credentials found''
   \<and> lines (check_auth_main E0 []) = [Json (result (check_auth_main E0 []))]"
proof -
  have n: "getCredential [] ''microsoft-graph'' (profile E0) = None"
    by (simp add: getCredential_def)
  have j: "json E0" by (simp add: E0_def)
  have e: "error (result (check_auth_main E0 [])) = Some ''No credentials found''"
    by (simp add: check_auth_main_def n result_finish needs_auth_def)
  show ?thesis
    using C2_needs_auth_exactly_when [of E0 "[]"] n j e by auto
qed



text \<open>
  C9. A silent refresh in check-auth that succeeds leaves the client id and the tenant
  id unchanged: the credential it stores carries exactly the old credential's
  \<open>clientId\<close> and \<open>tenantId\<close>, whatever they were, absent included.
\<close>

theorem C9_refresh_keeps_client_and_tenant:
  assumes "getCredential st ''microsoft-graph'' (profile E) = Some c"
    and "isTokenExpired (t_expired E) c"
    and "truthy (refreshToken c)"
    and "provider E (refreshRequest E c) = Returned (Some r)"
  shows "\<exists>c'. getCredential (final_store (check_auth_main E st)) ''microsoft-graph'' (profile E)
                = Some c'
           \<and> clientId c' = clientId c \<and> tenantId c' = tenantId c"
  unfolding main_refreshed [OF assms]
  by (simp add: final_store_finish get_set_same newCredential_def)

theorem C9_refresh_keeps_client_and_tenant_witness:
  "\<exists>c'. getCredential (final_store (check_auth_main E0 st0)) ''microsoft-graph'' (profile E0)
           = Some c'
      \<and> clientId c' = None \<and> tenantId c' = Some ''contoso''"
  using C9_refresh_keeps_client_and_tenant [OF sample_refresh] by (simp add: c0_def)

text \<open>
  C10. On a silent refresh in check-auth that succeeds, what the provider's result lacks
  is filled in: without an expiry, the stored credential expires exactly one hour
  (3,600,000 ms) after the clock reading taken there; with an empty list of scopes, the old
  scopes are kept; without an account, the old account is kept.
\<close>

theorem C10_refresh_defaults:
  assumes "getCredential st ''microsoft-graph'' (profile E) = Some c"
    and "isTokenExpired (t_expired E) c"
    and "truthy (refreshToken c)"
    and "provider E (refreshRequest E c) = Returned (Some r)"
  shows "\<exists>c'. getCredential (final_store (check_auth_main E st)) ''microsoft-graph'' (profile E)
                = Some c'
           \<and> (ar_expiresOn r = None \<longrightarrow> expiresAt c' = t_default E + 3600000)
           \<and> (ar_scopes r = Some [] \<longrightarrow> scopes c' = scopes c)
           \<and> (ar_account r = None \<longrightarrow> account c' = account c)"
  unfolding main_refreshed [OF assms]
  by (simp add: final_store_finish get_set_same newCredential_def)

theorem C10_refresh_defaults_witness:
  "\<exists>c'. getCredential (final_store (check_auth_main E1 st0)) ''microsoft-graph'' (profile E1)
           = Some c'
      \<and> expiresAt c' = 3606002 \<and> scopes c' = [''User.Read'']
      \<and> account c' = ''ada@example.org''"
proof -
  have r: "ar_expiresOn r1 = None" "ar_scopes r1 = Some []" "ar_account r1 = None"
    by (simp_all add: r1_def)
  have c: "t_default E1 = 6002" "scopes c0 = [''User.Read'']" "account c0 = ''ada@example.org''"
    by (simp_all add: E1_def E0_def c0_def)
  show ?thesis
    using C10_refresh_defaults [OF sample_refresh1] unfolding r c by simp
qed

section \<open>Properties of the calendar arithmetic\<close>

lemma div_step:
  fixes x k :: int
  assumes "0 < k"
  shows "(x + 1) div k = x div k + (if (x + 1) mod k = 0 then 1 else 0)"
proof (cases "x mod k + 1 < k")
  case True
  have e: "x + 1 = k * (x div k) + (x mod k + 1)" by simp
  have r: "0 \<le> x mod k + 1" using assms by (simp add: add_nonneg_nonneg)
  have "(x + 1) div k = x div k"
    using int_div_pos_eq [OF e r True] .
  moreover have "(x + 1) mod k = x mod k + 1"
    using int_mod_pos_eq [OF e r True] .
  moreover have "x mod k + 1 \<noteq> 0" using assms pos_mod_sign [of k x] by linarith
  ultimately show ?thesis by simp
next
  case False
  have "x mod k < k" using assms by simp
  with False have k: "x mod k + 1 = k" by linarith
  have "x + 1 = k * (x div k) + (x mod k + 1)" by simp
  also have "\<dots> = k * (x div k + 1) + 0" using k by (simp add: algebra_simps)
  finally have e: "x + 1 = k * (x div k + 1) + 0" .
  have "(x + 1) div k = x div k + 1"
    using int_div_pos_eq [OF e _ assms] by simp
  moreover have "(x + 1) mod k = 0"
    using int_mod_pos_eq [OF e _ assms] by simp
  ultimately show ?thesis by simp
qed


lemma div_step':
  fixes x x' k :: int
  assumes "0 < k" and "x' = x + 1"
  shows "x' div k = x div k + (if x' mod k = 0 then 1 else 0)"
  unfolding assms(2) using assms(1) by (rule div_step)

lemma mod_shift4: "(y + 1 - 1969) mod 4 = y mod (4::int)"
proof -
  have "y + 1 - 1969 = y + (- 492) * 4" by simp
  then show ?thesis by (simp only: mod_mult_self1)
qed

lemma mod_shift100: "(y + 1 - 1901) mod 100 = y mod (100::int)"
proof -
  have "y + 1 - 1901 = y + (- 19) * 100" by simp
  then show ?thesis by (simp only: mod_mult_self1)
qed

lemma mod_shift400: "(y + 1 - 1601) mod 400 = y mod (400::int)"
proof -
  have "y + 1 - 1601 = y + (- 4) * 400" by simp
  then show ?thesis by (simp only: mod_mult_self1)
qed

lemma m4_100: "(y::int) mod 100 = 0 \<Longrightarrow> y mod 4 = 0"
  using dvd_trans [of 4 100 y] by (simp add: mod_eq_0_iff_dvd)

lemma m100_400: "(y::int) mod 400 = 0 \<Longrightarrow> y mod 100 = 0"
  using dvd_trans [of 100 400 y] by (simp add: mod_eq_0_iff_dvd)

lemma DayFromYear_Suc:
  "DayFromYear (y + 1) = DayFromYear y + (if InLeapYear y then 366 else 365)"
proof -
  define A B C where "A = (y - 1969) div 4" and "B = (y - 1901) div 100"
    and "C = (y - 1601) div 400"
  define p4 p100 p400 where "p4 \<longleftrightarrow> y mod 4 = 0" and "p100 \<longleftrightarrow> y mod 100 = 0"
    and "p400 \<longleftrightarrow> y mod 400 = 0"
  have "(y + 1 - 1969) div 4 = (y - 1969) div 4 + (if (y + 1 - 1969) mod 4 = 0 then 1 else 0)"
    by (rule div_step') simp_all
  then have a: "(y + 1 - 1969) div 4 = A + (if p4 then 1 else 0)"
    unfolding mod_shift4 A_def p4_def .
  have "(y + 1 - 1901) div 100 = (y - 1901) div 100 + (if (y + 1 - 1901) mod 100 = 0 then 1 else 0)"
    by (rule div_step') simp_all
  then have b: "(y + 1 - 1901) div 100 = B + (if p100 then 1 else 0)"
    unfolding mod_shift100 B_def p100_def .
  have "(y + 1 - 1601) div 400 = (y - 1601) div 400 + (if (y + 1 - 1601) mod 400 = 0 then 1 else 0)"
    by (rule div_step') simp_all
  then have c: "(y + 1 - 1601) div 400 = C + (if p400 then 1 else 0)"
    unfolding mod_shift400 C_def p400_def .
  have i: "p100 \<longrightarrow> p4" "p400 \<longrightarrow> p100"
    unfolding p4_def p100_def p400_def by (rule impI, erule m4_100) (rule impI, erule m100_400)
  have l: "InLeapYear y \<longleftrightarrow> p4 \<and> (\<not> p100 \<or> p400)"
    unfolding InLeapYear_def p4_def p100_def p400_def by simp
  have n: "DayFromYear (y + 1) =
      365 * (y + 1 - 1970) + (A + (if p4 then 1 else 0)) - (B + (if p100 then 1 else 0))
        + (C + (if p400 then 1 else 0))"
    unfolding DayFromYear_def a b c by (rule refl)
  have o: "DayFromYear y = 365 * (y - 1970) + A - B + C"
    unfolding DayFromYear_def A_def B_def C_def by (rule refl)
  show ?thesis
    using i unfolding n o l
    by (cases p4; cases p100; cases p400; simp)
qed

lemma DayFromYear_less: "DayFromYear y < DayFromYear (y + 1)"
  by (simp add: DayFromYear_Suc)


text \<open>The search for the year ends: the first days of the years grow.\<close>

termination findYear
proof (relation "measure (\<lambda>(d, y). nat (d + 1 - DayFromYear (y + 1)))")
  show "wf (measure (\<lambda>(d, y). nat (d + 1 - DayFromYear (y + 1))))" by simp
next
  fix d y :: int
  assume "DayFromYear (y + 1) \<le> d"
  moreover have "DayFromYear (y + 1) < DayFromYear (y + 1 + 1)" by (rule DayFromYear_less)
  ultimately show "((d, y + 1), (d, y)) \<in> measure (\<lambda>(d, y). nat (d + 1 - DayFromYear (y + 1)))"
    by simp
qed


declare findYear.simps [simp del]

lemma findYear_bounds:
  "DayFromYear y \<le> d \<Longrightarrow>
     DayFromYear (findYear d y) \<le> d \<and> d < DayFromYear (findYear d y + 1)"
proof (induction d y rule: findYear.induct)
  case (1 d y)
  show ?case
  proof (cases "DayFromYear (y + 1) \<le> d")
    case True
    then show ?thesis using "1.IH" by (subst (1 2) findYear.simps) simp
  next
    case False
    then show ?thesis using "1.prems" by (subst (1 2) findYear.simps) simp
  qed
qed

lemma DayFromYear_mono_nat: "DayFromYear y \<le> DayFromYear (y + int n)"
proof (induction n)
  case 0
  show ?case by simp
next
  case (Suc n)
  have "DayFromYear (y + int n) < DayFromYear (y + int n + 1)" by (rule DayFromYear_less)
  with Suc show ?case by (simp add: ac_simps)
qed

lemma DayFromYear_mono: "y \<le> y' \<Longrightarrow> DayFromYear y \<le> DayFromYear y'"
  using DayFromYear_mono_nat [of y "nat (y' - y)"] by simp

lemma year_unique:
  assumes "DayFromYear y \<le> d" "d < DayFromYear (y + 1)"
    and "DayFromYear y' \<le> d" "d < DayFromYear (y' + 1)"
  shows "y = y'"
proof (rule ccontr)
  assume "y \<noteq> y'"
  then consider "y + 1 \<le> y'" | "y' + 1 \<le> y" by linarith
  then show False
  proof cases
    case 1
    from DayFromYear_mono [OF 1] assms show False by linarith
  next
    case 2
    from DayFromYear_mono [OF 2] assms show False by linarith
  qed
qed


lemma msPerDay_pos: "0 < msPerDay"
  by (simp add: msPerDay_def)

lemma Day_TimeWithinDay: "Day t * msPerDay + TimeWithinDay t = t"
  unfolding Day_def TimeWithinDay_def by (rule div_mult_mod_eq)

lemma TimeWithinDay_range: "0 \<le> TimeWithinDay t \<and> TimeWithinDay t < msPerDay"
  unfolding TimeWithinDay_def using msPerDay_pos by simp

lemma Day_add_days: "Day (t + n * msPerDay) = Day t + n"
  unfolding Day_def using msPerDay_pos by simp

lemma TimeWithinDay_add_days: "TimeWithinDay (t + n * msPerDay) = TimeWithinDay t"
  unfolding TimeWithinDay_def by simp

lemma Day_MakeDate: "0 \<le> tod \<Longrightarrow> tod < msPerDay \<Longrightarrow> Day (MakeDate d tod) = d"
  unfolding Day_def MakeDate_def using msPerDay_pos
  by (simp add: div_pos_pos_trivial)

lemma TimeWithinDay_MakeDate:
  "0 \<le> tod \<Longrightarrow> tod < msPerDay \<Longrightarrow> TimeWithinDay (MakeDate d tod) = tod"
  unfolding TimeWithinDay_def MakeDate_def by simp

lemma MonthFromDayInYear_range:
  "0 \<le> MonthFromDayInYear leap d \<and> MonthFromDayInYear leap d \<le> 11"
  by (simp add: MonthFromDayInYear_def Let_def)

lemma MonthFromTime_range: "0 \<le> MonthFromTime t \<and> MonthFromTime t \<le> 11"
  unfolding MonthFromTime_def by (rule MonthFromDayInYear_range)

lemma MakeDay_in_year:
  "0 \<le> m \<Longrightarrow> m \<le> 11 \<Longrightarrow>
     MakeDay y m dt = DayFromYear y + monthStart (InLeapYear y) m + dt - 1"
  by (simp add: MakeDay_def Let_def)

lemma MakeDay_own_fields:
  "MakeDay (YearFromTime t) (MonthFromTime t) (DateFromTime t + n) = Day t + n"
  using MonthFromTime_range [of t]
  by (simp add: MakeDay_in_year DateFromTime_def DayWithinYear_def)

lemma MakeDate_own_day: "MakeDate (Day t + n) (TimeWithinDay t) = t + n * msPerDay"
  unfolding MakeDate_def using Day_TimeWithinDay [of t] by (simp add: algebra_simps)

lemma setDate_getDate:
  "setDate P (getDate P t + n) t = fromLocal P (LocalTime P t + n * msPerDay)"
  unfolding setDate_def getDate_def MakeDay_own_fields MakeDate_own_day by (rule refl)

lemma MakeTime_zero: "MakeTime 0 0 0 0 = 0"
  by (simp add: MakeTime_def)

lemma setHours_midnight:
  "setHours P 0 0 0 0 t = fromLocal P (Day (LocalTime P t) * msPerDay)"
  by (simp add: setHours_def MakeTime_zero MakeDate_def)

lemma Day_midnight: "Day (Day t * msPerDay) = Day t"
  unfolding Day_def using msPerDay_pos by simp

lemma TimeWithinDay_midnight: "TimeWithinDay (d * msPerDay) = 0"
  unfolding TimeWithinDay_def by simp


lemma DayFromYear_1970: "DayFromYear 1970 = 0"
  by (simp add: DayFromYear_def)

lemma DayFromYear_step_bounds:
  assumes "y' = y + 1"
  shows "DayFromYear y + 365 \<le> DayFromYear y'" and "DayFromYear y' \<le> DayFromYear y + 366"
  unfolding assms by (simp_all add: DayFromYear_Suc)

lemma DayFromYear_upper: "DayFromYear (y + int n) \<le> DayFromYear y + 366 * int n"
proof (induction n)
  case 0
  show ?case by simp
next
  case (Suc n)
  have "DayFromYear (y + int (Suc n)) \<le> DayFromYear (y + int n) + 366"
    by (rule DayFromYear_step_bounds) simp
  with Suc show ?case by simp
qed

lemma DayFromYear_lower: "DayFromYear y + 365 * int n \<le> DayFromYear (y + int n)"
proof (induction n)
  case 0
  show ?case by simp
next
  case (Suc n)
  have "DayFromYear (y + int n) + 365 \<le> DayFromYear (y + int (Suc n))"
    by (rule DayFromYear_step_bounds) simp
  with Suc show ?case by simp
qed

lemma findYear_start:
  "DayFromYear (1970 + (if d < 0 then d div 365 else d div 366)) \<le> d"
proof (cases "d < 0")
  case True
  define q r where "q = d div 365" and "r = d mod 365"
  have d: "d = q * 365 + r" and r: "0 \<le> r" unfolding q_def r_def by simp_all
  with True have q: "q \<le> 0" by linarith
  have "1970 + q + int (nat (- q)) = 1970" using q by simp
  then have "DayFromYear (1970 + q) + 365 * int (nat (- q)) \<le> 0"
    using DayFromYear_lower [of "1970 + q" "nat (- q)"] by (simp only: DayFromYear_1970)
  moreover have "int (nat (- q)) = - q" using q by simp
  ultimately have "DayFromYear (1970 + q) \<le> 365 * q" by simp
  also have "\<dots> \<le> d" using d r by linarith
  finally have "DayFromYear (1970 + q) \<le> d" .
  then show ?thesis using True unfolding q_def by (simp only: if_True)
next
  case False
  define q r where "q = d div 366" and "r = d mod 366"
  have d: "d = q * 366 + r" and r: "0 \<le> r" "r < 366" unfolding q_def r_def by simp_all
  with False have q: "0 \<le> q" by linarith
  have "DayFromYear (1970 + int (nat q)) \<le> 366 * int (nat q)"
    using DayFromYear_upper [of 1970 "nat q"] by (simp only: DayFromYear_1970)
  moreover have "int (nat q) = q" using q by simp
  ultimately have "DayFromYear (1970 + q) \<le> 366 * q" by simp
  also have "\<dots> \<le> d" using d r by linarith
  finally have "DayFromYear (1970 + q) \<le> d" .
  then show ?thesis using False unfolding q_def by (simp only: if_False)
qed

lemma YearFromDay_bounds:
  "DayFromYear (YearFromDay d) \<le> d \<and> d < DayFromYear (YearFromDay d + 1)"
  unfolding YearFromDay_def by (rule findYear_bounds) (rule findYear_start)

lemma YearFromDay_eqI:
  "DayFromYear y \<le> d \<Longrightarrow> d < DayFromYear (y + 1) \<Longrightarrow> YearFromDay d = y"
  using YearFromDay_bounds [of d] year_unique [of "YearFromDay d" d y] by simp


lemma month_cases:
  assumes "0 \<le> m" "m \<le> 11"
  shows "m = 0 \<or> m = 1 \<or> m = 2 \<or> m = 3 \<or> m = 4 \<or> m = 5 \<or> m = 6 \<or> m = 7 \<or> m = 8
         \<or> m = 9 \<or> m = 10 \<or> m = (11::int)"
  using assms by arith

lemma month_roundtrip:
  assumes "0 \<le> m" "m \<le> 11" "1 \<le> dt" "dt \<le> DaysInMonth leap m"
  shows "MonthFromDayInYear leap (monthStart leap m + dt - 1) = m"
  using month_cases [OF assms(1,2)] assms(3,4)
  by (cases leap; elim disjE)
     (simp_all add: MonthFromDayInYear_def monthStart_def DaysInMonth_def Let_def)

lemma day_in_year_lower:
  assumes "0 \<le> m" "m \<le> 11" "1 \<le> dt"
  shows "0 \<le> monthStart leap m + dt - 1"
  using month_cases [OF assms(1,2)] assms(3)
  by (cases leap; elim disjE) (simp_all add: monthStart_def)

lemma day_in_year_upper:
  assumes "0 \<le> m" "m \<le> 11" "dt \<le> DaysInMonth leap m"
  shows "monthStart leap m + dt - 1 < (if leap then 366 else 365)"
  using month_cases [OF assms(1,2)] assms(3)
  by (cases leap; elim disjE) (simp_all add: monthStart_def DaysInMonth_def)

lemma month_of_day_lower:
  assumes "0 \<le> d"
  shows "monthStart leap (MonthFromDayInYear leap d) \<le> d"
  using assms
  by (cases leap) (simp_all add: MonthFromDayInYear_def monthStart_def Let_def)

lemma month_of_day_upper:
  assumes "d < (if leap then 366 else 365)"
  shows "d < monthStart leap (MonthFromDayInYear leap d)
              + DaysInMonth leap (MonthFromDayInYear leap d)"
  using assms
  by (cases leap) (simp_all add: MonthFromDayInYear_def monthStart_def DaysInMonth_def Let_def)


text \<open>The fields of a date built from fields that name a day of the calendar.\<close>

lemma Day_year_bounds:
  "DayFromYear (YearFromTime t) \<le> Day t \<and> Day t < DayFromYear (YearFromTime t + 1)"
  unfolding YearFromTime_def by (rule YearFromDay_bounds)

lemma DayWithinYear_range:
  "0 \<le> DayWithinYear t \<and> DayWithinYear t < (if InLeapYear (YearFromTime t) then 366 else 365)"
  using Day_year_bounds [of t] DayFromYear_Suc [of "YearFromTime t"]
  unfolding DayWithinYear_def by (simp split: if_splits)

lemma DateFromTime_range:
  "1 \<le> DateFromTime t
   \<and> DateFromTime t \<le> DaysInMonth (InLeapYear (YearFromTime t)) (MonthFromTime t)"
  using DayWithinYear_range [of t]
    month_of_day_lower [of "DayWithinYear t" "InLeapYear (YearFromTime t)"]
    month_of_day_upper [of "DayWithinYear t" "InLeapYear (YearFromTime t)"]
  unfolding DateFromTime_def MonthFromTime_def by simp

lemma fields_of_MakeDate:
  assumes "0 \<le> m" "m \<le> 11" "1 \<le> dt" "dt \<le> DaysInMonth (InLeapYear y) m"
    and "0 \<le> tod" "tod < msPerDay"
  shows "YearFromTime (MakeDate (MakeDay y m dt) tod) = y"
    and "MonthFromTime (MakeDate (MakeDay y m dt) tod) = m"
    and "DateFromTime (MakeDate (MakeDay y m dt) tod) = dt"
    and "TimeWithinDay (MakeDate (MakeDay y m dt) tod) = tod"
proof -
  let ?t = "MakeDate (MakeDay y m dt) tod"
  let ?k = "monthStart (InLeapYear y) m + dt - 1"
  have D: "Day ?t = DayFromYear y + ?k"
    using Day_MakeDate [OF assms(5,6)] MakeDay_in_year [OF assms(1,2)] by simp
  have k: "0 \<le> ?k" "?k < (if InLeapYear y then 366 else 365)"
    using day_in_year_lower [OF assms(1,2,3)] day_in_year_upper [OF assms(1,2,4)] by simp_all
  have "DayFromYear y \<le> Day ?t" using D k(1) by simp
  moreover have "Day ?t < DayFromYear (y + 1)"
    unfolding D DayFromYear_Suc using k(2) by (simp split: if_splits)
  ultimately show Y: "YearFromTime ?t = y"
    unfolding YearFromTime_def by (rule YearFromDay_eqI)
  have W: "DayWithinYear ?t = ?k" unfolding DayWithinYear_def Y D by simp
  show M: "MonthFromTime ?t = m"
    unfolding MonthFromTime_def Y W by (rule month_roundtrip [OF assms(1,2,3,4)])
  show "DateFromTime ?t = dt" unfolding DateFromTime_def Y W M by simp
  show "TimeWithinDay ?t = tod" by (rule TimeWithinDay_MakeDate [OF assms(5,6)])
qed


section \<open>Properties of the string functions\<close>

lemma of_char_digit: "k < 10 \<Longrightarrow> (of_char (digit k) :: nat) = 48 + k"
  by (simp add: digit_def)

lemma isDigit_digit: "k < 10 \<Longrightarrow> isDigit (digit k)"
  by (simp add: isDigit_def of_char_digit)

lemma digitsValue_snoc: "digitsValue (ds @ [c]) = 10 * digitsValue ds + (of_char c - 48)"
  by (simp add: digitsValue_def)

lemma show_nat_digits: "show_nat n \<noteq> [] \<and> list_all isDigit (show_nat n)"
proof (induction n rule: show_nat.induct)
  case (1 n)
  show ?case
  proof (cases "n < 10")
    case True
    then show ?thesis by (subst (1 2) show_nat.simps) (simp add: isDigit_digit)
  next
    case False
    then show ?thesis using "1.IH" by (subst (1 2) show_nat.simps) (simp add: isDigit_digit)
  qed
qed

lemma digitsValue_show_nat: "digitsValue (show_nat n) = n"
proof (induction n rule: show_nat.induct)
  case (1 n)
  show ?case
  proof (cases "n < 10")
    case True
    then show ?thesis
      by (subst show_nat.simps) (simp add: digitsValue_def of_char_digit)
  next
    case False
    then show ?thesis using "1.IH"
      by (subst show_nat.simps) (simp add: digitsValue_snoc of_char_digit)
  qed
qed

lemma digit_not_special:
  assumes "isDigit c"
  shows "\<not> isSpace c" "c \<noteq> CHR ''-''" "c \<noteq> CHR ''+''" "c \<noteq> CHR ''d''" "c \<noteq> CHR ''m''"
    "c \<noteq> CHR ''y''"
  using assms by (auto simp: isDigit_def isSpace_def)

lemma unit_not_digit: "\<not> isDigit (CHR ''d'')" "\<not> isDigit (CHR ''m'')" "\<not> isDigit (CHR ''y'')"
  by (simp_all add: isDigit_def)

lemma takeWhile_digits:
  "list_all isDigit ds \<Longrightarrow> \<not> isDigit u \<Longrightarrow> takeWhile isDigit (ds @ u # r) = ds"
  by (induction ds) simp_all

lemma dropWhile_digits:
  "list_all isDigit ds \<Longrightarrow> \<not> isDigit u \<Longrightarrow> dropWhile isDigit (ds @ u # r) = u # r"
  by (induction ds) simp_all

lemma takeWhile_all_digits: "list_all isDigit ds \<Longrightarrow> takeWhile isDigit ds = ds"
  by (induction ds) simp_all

lemma parseInt_digits:
  assumes "ds \<noteq> []" "list_all isDigit ds" "digitsValue ds \<le> 2 ^ 53"
  shows "parseInt P ds = Num (int (digitsValue ds))"
proof -
  obtain c r where ds: "ds = c # r" using assms(1) by (cases ds) auto
  with assms(2) have c: "isDigit c" by simp
  have s: "dropWhile isSpace ds = ds" using digit_not_special(1) [OF c] by (simp add: ds)
  have h: "hd ds \<noteq> CHR ''-''" "hd ds \<noteq> CHR ''+''"
    using digit_not_special(2,3) [OF c] by (simp_all add: ds)
  have t: "takeWhile isDigit ds = ds" using assms(2) by (rule takeWhile_all_digits)
  show ?thesis
    unfolding parseInt_def s Let_def using h assms(1,3) by (simp add: t)
qed

lemma relativeMatch_Cons:
  "relativeMatch (c # rest) =
     (if c = CHR ''+'' \<and> takeWhile isDigit rest \<noteq> []
         \<and> (dropWhile isDigit rest = ''d'' \<or> dropWhile isDigit rest = ''m''
              \<or> dropWhile isDigit rest = ''y'')
      then Some (takeWhile isDigit rest, hd (dropWhile isDigit rest)) else None)"
  by (simp only: relativeMatch_def Let_def list.case)

lemma relativeMatch_SomeD:
  assumes "relativeMatch s = Some (a, u)"
  shows "\<exists>rest. s = CHR ''+'' # rest \<and> takeWhile isDigit rest = a \<and> a \<noteq> []
           \<and> dropWhile isDigit rest = [u]
           \<and> (u = CHR ''d'' \<or> u = CHR ''m'' \<or> u = CHR ''y'')"
proof (cases s)
  case Nil
  with assms show ?thesis by (simp add: relativeMatch_def)
next
  case (Cons c rest)
  show ?thesis
    using assms unfolding Cons relativeMatch_Cons
    by (auto split: if_splits)
qed


lemma relativeMatch_Some_iff:
  "relativeMatch s = Some (a, u) \<longleftrightarrow>
     s = ''+'' @ a @ [u] \<and> a \<noteq> [] \<and> list_all isDigit a
     \<and> (u = CHR ''d'' \<or> u = CHR ''m'' \<or> u = CHR ''y'')"
proof
  assume "relativeMatch s = Some (a, u)"
  from relativeMatch_SomeD [OF this] obtain rest
    where s: "s = CHR ''+'' # rest" and t: "takeWhile isDigit rest = a" and n: "a \<noteq> []"
      and d: "dropWhile isDigit rest = [u]"
      and u: "u = CHR ''d'' \<or> u = CHR ''m'' \<or> u = CHR ''y''"
    by blast
  have "takeWhile isDigit rest @ dropWhile isDigit rest = rest" by (rule takeWhile_dropWhile_id)
  then have r: "a @ [u] = rest" unfolding t d .
  have "\<forall>x\<in>set (takeWhile isDigit rest). isDigit x" by (blast dest: set_takeWhileD)
  then have l: "list_all isDigit a" unfolding t list_all_iff .
  have "s = ''+'' @ a @ [u]" unfolding s r [symmetric] by simp
  with l n u show "s = ''+'' @ a @ [u] \<and> a \<noteq> [] \<and> list_all isDigit a
     \<and> (u = CHR ''d'' \<or> u = CHR ''m'' \<or> u = CHR ''y'')"
    by (intro conjI)
next
  assume r: "s = ''+'' @ a @ [u] \<and> a \<noteq> [] \<and> list_all isDigit a
     \<and> (u = CHR ''d'' \<or> u = CHR ''m'' \<or> u = CHR ''y'')"
  then have n: "\<not> isDigit u" using unit_not_digit by auto
  from r have s: "s = CHR ''+'' # (a @ [u])" by simp
  from r have l: "list_all isDigit a" by simp
  have t: "takeWhile isDigit (a @ [u]) = a" "dropWhile isDigit (a @ [u]) = [u]"
    using takeWhile_digits [OF l n, of "[]"] dropWhile_digits [OF l n, of "[]"] by simp_all
  show "relativeMatch s = Some (a, u)"
    unfolding s relativeMatch_Cons t using r by auto
qed


lemma relativeMatch_None_iff:
  "relativeMatch s = None \<longleftrightarrow>
     \<not> (\<exists>a u. s = ''+'' @ a @ [u] \<and> a \<noteq> [] \<and> list_all isDigit a
              \<and> (u = CHR ''d'' \<or> u = CHR ''m'' \<or> u = CHR ''y''))"
proof -
  have "relativeMatch s = None \<longleftrightarrow> \<not> (\<exists>a u. relativeMatch s = Some (a, u))"
    by (cases "relativeMatch s") auto
  then show ?thesis unfolding relativeMatch_Some_iff .
qed


section \<open>Properties of auth.ts\<close>

lemma map_fst_delete: "map fst (AList.delete k al) = filter (\<lambda>p. p \<noteq> k) (map fst al)"
  by (induction al) auto

lemma listProfiles_subset: "set (map fst (listBlocks clock st)) \<subseteq> set (listProfiles st ''microsoft-graph'')"
  by (auto simp: listBlocks_def in_set_enumerate_eq split: option.splits)

lemma delete_found:
  assumes "getCredential st service name = Some c"
  shows "\<exists>ps. map_of st service = Some ps
           \<and> deleteCredential st service name = (AList.update service (AList.delete name ps) st, True)"
  using assms by (auto simp: getCredential_def deleteCredential_def split: option.splits)

lemma delete_missing:
  assumes "getCredential st service name = None"
  shows "deleteCredential st service name = (st, False)"
  using assms by (auto simp: getCredential_def deleteCredential_def split: option.splits)

text \<open>
  The profile listing of \<^verbatim>\<open>auth.ts --list\<close> does not call \<^verbatim>\<open>isTokenExpired\<close>: it
  compares the stored expiry with a clock reading of its own, and its status line reads
  EXPIRED when the stored expiry is before that reading.
\<close>

lemma list_status_line:
  "\<exists>pre. profileBlock now name c =
           pre @ [''    Status: '' @ (if expiresAt c < now then ''EXPIRED'' else ''Valid''), '''']"
  by (simp add: expired_def profileBlock_def)

section \<open>The expiry check and the scripts that call it\<close>

lemma complete_main_stored:
  assumes "getCredential st ''microsoft-graph'' (cc_profile E) = Some c"
  shows "check_auth_complete_main E st =
           finish_complete E
             (if isTokenExpired (cc_now E) c
              then \<lparr>cc_status = Failed, cc_account = None,
                    cc_error = Some ''Credentials expired - please try authenticating again''\<rparr>
              else \<lparr>cc_status = Complete, cc_account = Some (account c), cc_error = None\<rparr>)"
  using assms by (simp add: check_auth_complete_main_def)

lemma cc_exit_finish: "cc_exit (finish_complete E r) = (if cc_status r = Complete then 0 else 1)"
  by (simp add: finish_complete_def output_complete_def)

text \<open>
  C4. For every credential and every reading of the clock, the expiry check
  (\<^verbatim>\<open>isTokenExpired\<close> of lib/credentials, as the spec gives it) classifies the credential
  as expired exactly when the current time is the stored expiry or later: an expiry in the
  past or exactly equal to now yields expired, an expiry strictly in the future yields not
  expired, however near (no safety margin). The scripts that call the check act on its
  answer at the same boundary. With the credential stored under the profile,
  check-auth-complete reports "failed", with its message, when the time the check reads is
  the stored expiry or later, and "complete" with the stored account otherwise, and exits
  0 exactly when the expiry is strictly in the future; check-auth reports the stored
  credential as valid and leaves the store as it is when the expiry is strictly in the
  future, and when the time is the stored expiry or later and there is no refresh token it
  reports "needs-auth" with the reason "Token expired, no refresh token".
\<close>

theorem C4_expiry_check:
  assumes "getCredential st ''microsoft-graph'' (cc_profile E) = Some c"
    and "getCredential st' ''microsoft-graph'' (profile E') = Some c"
  shows "isTokenExpired now c = (expiresAt c \<le> now)
     \<and> (expiresAt c < now \<or> expiresAt c = now \<longrightarrow> isTokenExpired now c)
     \<and> (now < expiresAt c \<longrightarrow> \<not> isTokenExpired now c)
     \<and> check_auth_complete_main E st =
         finish_complete E
           (if expiresAt c \<le> cc_now E
            then \<lparr>cc_status = Failed, cc_account = None,
                  cc_error = Some ''Credentials expired - please try authenticating again''\<rparr>
            else \<lparr>cc_status = Complete, cc_account = Some (account c), cc_error = None\<rparr>)
     \<and> (cc_exit (check_auth_complete_main E st) = 0) = (cc_now E < expiresAt c)
     \<and> (t_expired E' < expiresAt c \<longrightarrow>
          check_auth_main E' st' =
            finish E' st' (valid (max 0 ((expiresAt c - t_valid E') div 1000)) (account c)))
     \<and> (expiresAt c \<le> t_expired E' \<and> \<not> truthy (refreshToken c) \<longrightarrow>
          check_auth_main E' st' = finish E' st' (needs_auth ''Token expired, no refresh token''))"
proof -
  have a: "isTokenExpired now c = (expiresAt c \<le> now)"
    by (simp add: isTokenExpired_def)
  have b: "expiresAt c < now \<or> expiresAt c = now \<longrightarrow> isTokenExpired now c"
    by (auto simp: isTokenExpired_def)
  have d: "now < expiresAt c \<longrightarrow> \<not> isTokenExpired now c"
    by (simp add: isTokenExpired_def)
  have e: "check_auth_complete_main E st =
         finish_complete E
           (if expiresAt c \<le> cc_now E
            then \<lparr>cc_status = Failed, cc_account = None,
                  cc_error = Some ''Credentials expired - please try authenticating again''\<rparr>
            else \<lparr>cc_status = Complete, cc_account = Some (account c), cc_error = None\<rparr>)"
    unfolding complete_main_stored [OF assms(1)] by (simp add: isTokenExpired_def)
  have f: "(cc_exit (check_auth_complete_main E st) = 0) = (cc_now E < expiresAt c)"
    unfolding e cc_exit_finish by auto
  have g: "t_expired E' < expiresAt c \<longrightarrow>
          check_auth_main E' st' =
            finish E' st' (valid (max 0 ((expiresAt c - t_valid E') div 1000)) (account c))"
    using assms(2) by (simp add: check_auth_main_def isTokenExpired_def)
  have h: "expiresAt c \<le> t_expired E' \<and> \<not> truthy (refreshToken c) \<longrightarrow>
          check_auth_main E' st' = finish E' st' (needs_auth ''Token expired, no refresh token'')"
    using assms(2) by (simp add: check_auth_main_def isTokenExpired_def)
  show ?thesis
    by (intro conjI; (rule a b d e f g h))
qed

theorem C4_expiry_check_witness:
  "isTokenExpired 5000 c0 \<and> isTokenExpired 5001 c0 \<and> \<not> isTokenExpired 4999 c0
   \<and> cc_result (check_auth_complete_main
                   \<lparr>cc_profile = ''default'', cc_json = True, cc_now = 5000\<rparr> st0) =
       \<lparr>cc_status = Failed, cc_account = None,
        cc_error = Some ''Credentials expired - please try authenticating again''\<rparr>
   \<and> cc_exit (check_auth_complete_main
                 \<lparr>cc_profile = ''default'', cc_json = True, cc_now = 5000\<rparr> st0) \<noteq> 0
   \<and> cc_result (check_auth_complete_main
                   \<lparr>cc_profile = ''default'', cc_json = True, cc_now = 4999\<rparr> st0) =
       \<lparr>cc_status = Complete, cc_account = Some ''ada@example.org'', cc_error = None\<rparr>
   \<and> cc_exit (check_auth_complete_main
                 \<lparr>cc_profile = ''default'', cc_json = True, cc_now = 4999\<rparr> st0) = 0
   \<and> result (check_auth_main (E0\<lparr>t_expired := 4999, t_valid := 4999\<rparr>) st0) =
       \<lparr>status = Valid, expiresIn = Some 0, cr_account = Some ''ada@example.org'',
        error = None\<rparr>
   \<and> result (check_auth_main (E0\<lparr>t_expired := 5000\<rparr>)
               [(''microsoft-graph'', [(''default'', c0\<lparr>refreshToken := None\<rparr>)])]) =
       \<lparr>status = NeedsAuth, expiresIn = None, cr_account = None,
        error = Some ''Token expired, no refresh token''\<rparr>"
proof -
  let ?A = "\<lparr>cc_profile = ''default'', cc_json = True, cc_now = 5000\<rparr>"
  let ?B = "\<lparr>cc_profile = ''default'', cc_json = True, cc_now = 4999\<rparr>"
  let ?c1 = "c0\<lparr>refreshToken := None\<rparr>"
  let ?st1 = "[(''microsoft-graph'', [(''default'', ?c1)])]"
  have s: "getCredential st0 ''microsoft-graph'' (cc_profile ?A) = Some c0"
    "getCredential st0 ''microsoft-graph'' (cc_profile ?B) = Some c0"
    "getCredential st0 ''microsoft-graph'' (profile (E0\<lparr>t_expired := 4999, t_valid := 4999\<rparr>))
       = Some c0"
    "getCredential st0 ''microsoft-graph'' (profile E0) = Some c0"
    "getCredential ?st1 ''microsoft-graph'' (cc_profile ?A) = Some ?c1"
    "getCredential ?st1 ''microsoft-graph'' (profile (E0\<lparr>t_expired := 5000\<rparr>)) = Some ?c1"
    by (simp_all add: getCredential_def st0_def E0_def)
  have x: "expiresAt c0 = 5000" "account c0 = ''ada@example.org''"
    "expiresAt ?c1 = 5000" "\<not> truthy (refreshToken ?c1)"
    by (simp_all add: c0_def)
  note A = C4_expiry_check [OF s(1) s(4), of 5000]
  note A' = C4_expiry_check [OF s(1) s(4), of 5001]
  note B = C4_expiry_check [OF s(2) s(3), of 4999]
  note D = C4_expiry_check [OF s(5) s(6), of 5000]
  have 1: "isTokenExpired 5000 c0" using A x(1) by simp
  have 2: "isTokenExpired 5001 c0" using A' x(1) by simp
  have 3: "\<not> isTokenExpired 4999 c0" using B x(1) by simp
  have 4: "cc_result (check_auth_complete_main ?A st0) =
       \<lparr>cc_status = Failed, cc_account = None,
        cc_error = Some ''Credentials expired - please try authenticating again''\<rparr>"
    using A x(1) by (simp add: finish_complete_def)
  have 5: "cc_exit (check_auth_complete_main ?A st0) \<noteq> 0"
    using A x(1) by (simp add: cc_exit_finish)
  have 6: "cc_result (check_auth_complete_main ?B st0) =
       \<lparr>cc_status = Complete, cc_account = Some ''ada@example.org'', cc_error = None\<rparr>"
    using B x(1,2) by (simp add: finish_complete_def)
  have 7: "cc_exit (check_auth_complete_main ?B st0) = 0"
    using B x(1) by (simp add: cc_exit_finish)
  have 8: "result (check_auth_main (E0\<lparr>t_expired := 4999, t_valid := 4999\<rparr>) st0) =
       \<lparr>status = Valid, expiresIn = Some 0, cr_account = Some ''ada@example.org'',
        error = None\<rparr>"
    using B x(1,2) by (simp add: result_finish valid_def)
  have 9: "result (check_auth_main (E0\<lparr>t_expired := 5000\<rparr>) ?st1) =
       \<lparr>status = NeedsAuth, expiresIn = None, cr_account = None,
        error = Some ''Token expired, no refresh token''\<rparr>"
    using D x(3,4) by (simp add: result_finish needs_auth_def)
  show ?thesis
    by (intro conjI; (rule 1 2 3 4 5 6 7 8 9))
qed


text \<open>
  C7. For every profile name X, \<^verbatim>\<open>auth --delete --profile X\<close> on a profile that does not
  exist prints "Profile not found: X", leaves the store as it is and ends normally (exit
  code 0); on a profile that exists it prints "Deleted credential profile: X", ends
  normally, and leaves a store in which X has no credential and the list of profiles is
  the old one without X, so that a later \<^verbatim>\<open>auth --list\<close> (which does not change the
  store) prints no block for X.
\<close>

theorem C7_delete_profile:
  "(getCredential st ''microsoft-graph'' X = None \<longrightarrow>
      auth_main authenticate \<lparr>af_profile = X, af_list = False, af_delete = True\<rparr> clock st
        = \<lparr>a_store = st, a_lines = [''Profile not found: '' @ X], a_exit = 0\<rparr>)
   \<and> (getCredential st ''microsoft-graph'' X \<noteq> None \<longrightarrow>
        (let r = auth_main authenticate \<lparr>af_profile = X, af_list = False, af_delete = True\<rparr> clock st
         in a_lines r = [''Deleted credential profile: '' @ X] \<and> a_exit r = 0
          \<and> getCredential (a_store r) ''microsoft-graph'' X = None
          \<and> listProfiles (a_store r) ''microsoft-graph''
              = filter (\<lambda>p. p \<noteq> X) (listProfiles st ''microsoft-graph'')
          \<and> X \<notin> set (shownProfiles clock' (a_store r))
          \<and> a_store (auth_main authenticate \<lparr>af_profile = Y, af_list = True, af_delete = D\<rparr>
                        clock' (a_store r)) = a_store r))"
proof (intro conjI impI)
  assume "getCredential st ''microsoft-graph'' X = None"
  then show "auth_main authenticate \<lparr>af_profile = X, af_list = False, af_delete = True\<rparr> clock st
        = \<lparr>a_store = st, a_lines = [''Profile not found: '' @ X], a_exit = 0\<rparr>"
    by (simp add: auth_main_def delete_missing)
next
  assume "getCredential st ''microsoft-graph'' X \<noteq> None"
  then obtain c where c: "getCredential st ''microsoft-graph'' X = Some c" by auto
  from delete_found [OF c] obtain ps where ps: "map_of st ''microsoft-graph'' = Some ps"
    and d: "deleteCredential st ''microsoft-graph'' X
              = (AList.update ''microsoft-graph'' (AList.delete X ps) st, True)"
    by auto
  let ?st' = "AList.update ''microsoft-graph'' (AList.delete X ps) st"
  have r: "auth_main authenticate \<lparr>af_profile = X, af_list = False, af_delete = True\<rparr> clock st
           = \<lparr>a_store = ?st', a_lines = [''Deleted credential profile: '' @ X], a_exit = 0\<rparr>"
    by (simp add: auth_main_def d)
  have m: "map_of ?st' ''microsoft-graph'' = Some (AList.delete X ps)"
    by (simp add: update_conv')
  have g: "getCredential ?st' ''microsoft-graph'' X = None"
    by (simp add: getCredential_def m delete_conv')
  have l: "listProfiles ?st' ''microsoft-graph''
             = filter (\<lambda>p. p \<noteq> X) (listProfiles st ''microsoft-graph'')"
    by (simp add: listProfiles_def m ps map_fst_delete)
  have s: "X \<notin> set (shownProfiles clock' ?st')"
    using listProfiles_subset [of clock' ?st'] unfolding shownProfiles_def l by auto
  have k: "a_store (auth_main authenticate \<lparr>af_profile = Y, af_list = True, af_delete = D\<rparr>
                        clock' ?st') = ?st'"
    by (simp add: auth_main_def Let_def)
  show "let r = auth_main authenticate \<lparr>af_profile = X, af_list = False, af_delete = True\<rparr> clock st
         in a_lines r = [''Deleted credential profile: '' @ X] \<and> a_exit r = 0
          \<and> getCredential (a_store r) ''microsoft-graph'' X = None
          \<and> listProfiles (a_store r) ''microsoft-graph''
              = filter (\<lambda>p. p \<noteq> X) (listProfiles st ''microsoft-graph'')
          \<and> X \<notin> set (shownProfiles clock' (a_store r))
          \<and> a_store (auth_main authenticate \<lparr>af_profile = Y, af_list = True, af_delete = D\<rparr>
                        clock' (a_store r)) = a_store r"
    unfolding r Let_def using g l s k by simp
qed


theorem C7_delete_profile_witness:
  "getCredential st1 ''microsoft-graph'' ''ghost'' = None
   \<and> auth_main auth0 \<lparr>af_profile = ''ghost'', af_list = False, af_delete = True\<rparr> (\<lambda>i. 6000) st1
       = \<lparr>a_store = st1, a_lines = [''Profile not found: ghost''], a_exit = 0\<rparr>
   \<and> getCredential st1 ''microsoft-graph'' ''default'' \<noteq> None
   \<and> (let r = auth_main auth0 \<lparr>af_profile = ''default'', af_list = False, af_delete = True\<rparr>
                 (\<lambda>i. 6000) st1
      in a_lines r = [''Deleted credential profile: default''] \<and> a_exit r = 0
       \<and> listProfiles (a_store r) ''microsoft-graph'' = [''work'']
       \<and> ''default'' \<notin> set (shownProfiles (\<lambda>i. 7000) (a_store r)))"
proof -
  have g: "getCredential st1 ''microsoft-graph'' ''ghost'' = None"
    "getCredential st1 ''microsoft-graph'' ''default'' \<noteq> None"
    by (simp_all add: getCredential_def st1_def)
  have l: "listProfiles st1 ''microsoft-graph'' = [''default'', ''work'']"
    by (simp add: listProfiles_def st1_def)
  show ?thesis
    using C7_delete_profile [of st1 "''ghost''" auth0 "\<lambda>i. 6000" "\<lambda>i. 7000" "''default''" False]
      C7_delete_profile [of st1 "''default''" auth0 "\<lambda>i. 6000" "\<lambda>i. 7000" "''default''" False]
      g l
    by (simp add: Let_def)
qed

section \<open>Properties of calendar.ts\<close>

lemma request_sent:
  "sent (request E display token endpoint) = [(''https://graph.microsoft.com/v1.0'' @ endpoint, token)]"
  by (simp add: request_def graphRequest_def caught_def output_response_def Let_def
      split: outcome.splits)

lemma request_not_ok:
  assumes "fetch E (''https://graph.microsoft.com/v1.0'' @ endpoint) token = Returned response"
    and "\<not> ok response"
  shows "request E display token endpoint =
           \<lparr>sent = [(''https://graph.microsoft.com/v1.0'' @ endpoint, token)],
            responses = [ErrorResponse (''Graph API error: '' @ show_nat (http_status response)
                                         @ '' - '' @ http_text response)],
            calendar_exit = 1\<rparr>"
  using assms by (simp add: request_def graphRequest_def caught_def output_response_def)

lemma sent_output_response: "sent (output_response reqs r) = reqs"
  by (simp add: output_response_def)

lemma sent_caught: "sent (caught reqs e) = reqs"
  by (simp add: caught_def output_response_def)

lemma main_sent_cases:
  "sent (calendar_main E values) = []
   \<or> (\<exists>display token endpoint. calendar_main E values = request E display token endpoint)"
proof (cases "ensureAuth E ''microsoft-graph'' (cf_profile values)
                (gs_user (scopes_const E) @ gs_calendar (scopes_const E))")
  case (AuthNot response)
  then show ?thesis by (simp add: calendar_main_def sent_output_response)
next
  case (AuthOk token)
  obtain startDate endDate
    where d: "dateRange (platform E) values (t_now E) (t_base E) = (startDate, endDate)"
    by (cases "dateRange (platform E) values (t_now E) (t_base E)")
  show ?thesis
    unfolding calendar_main_def Let_def AuthOk d
    by (auto simp: sent_output_response sent_caught split: outcome.splits)
qed

text \<open>
  C6. For every Graph API request that a run of calendar.ts sends, a response that is not
  2xx makes the run end with one printed response, the error whose message is
  "Graph API error: ", the HTTP status code, " - " and the text of the response body, and
  with exit code 1; the request is the only one the run sends (nothing is retried).
\<close>

theorem C6_graph_error_propagates:
  assumes "(url, token) \<in> set (sent (calendar_main E values))"
    and "fetch E url token = Returned response"
    and "\<not> ok response"
  shows "calendar_main E values =
           \<lparr>sent = [(url, token)],
            responses = [ErrorResponse (''Graph API error: '' @ show_nat (http_status response)
                                         @ '' - '' @ http_text response)],
            calendar_exit = 1\<rparr>"
proof -
  from main_sent_cases [of E "values"] assms(1)
  obtain display tok endpoint
    where r: "calendar_main E values = request E display tok endpoint"
    by auto
  from assms(1) have u: "url = ''https://graph.microsoft.com/v1.0'' @ endpoint" "token = tok"
    unfolding r request_sent by simp_all
  show ?thesis
    unfolding r using request_not_ok [of E endpoint tok response display] assms(2,3)
    unfolding u by simp
qed


theorem C6_graph_error_propagates_witness:
  "(''https://graph.microsoft.com/v1.0/me/events/AAA'', ''token-1'')
      \<in> set (sent (calendar_main cal0 (flags0\<lparr>cf_positional := Some ''view'', cf_id := Some ''AAA''\<rparr>)))
   \<and> \<not> ok response404
   \<and> calendar_main cal0 (flags0\<lparr>cf_positional := Some ''view'', cf_id := Some ''AAA''\<rparr>) =
       \<lparr>sent = [(''https://graph.microsoft.com/v1.0/me/events/AAA'', ''token-1'')],
        responses = [ErrorResponse ''Graph API error: 404 - not found''],
        calendar_exit = 1\<rparr>"
proof -
  let ?v = "flags0\<lparr>cf_positional := Some ''view'', cf_id := Some ''AAA''\<rparr>"
  have c: "command ?v = ''view''" by (simp add: command_def flags0_def)
  have i: "truthy (cf_id ?v)" "the (cf_id ?v) = ''AAA''" by (simp_all add: flags0_def)
  have a: "ensureAuth cal0 ''microsoft-graph'' (cf_profile ?v)
             (gs_user (scopes_const cal0) @ gs_calendar (scopes_const cal0)) = AuthOk ''token-1''"
    by (simp add: cal0_def)
  have m: "calendar_main cal0 ?v = request cal0 (eventData cal0) ''token-1'' ''/me/events/AAA''"
    unfolding calendar_main_def Let_def a c i by (simp add: case_prod_beta)
  have s: "(''https://graph.microsoft.com/v1.0/me/events/AAA'', ''token-1'')
             \<in> set (sent (calendar_main cal0 ?v))"
    unfolding m request_sent by simp
  have f: "fetch cal0 ''https://graph.microsoft.com/v1.0/me/events/AAA'' ''token-1''
             = Returned response404"
    by (simp add: cal0_def)
  have n: "\<not> ok response404" by (simp add: ok_def response404_def)
  have "show_nat 404 = ''404''" by code_simp
  then have t: "show_nat (http_status response404) = ''404''"
    "http_text response404 = ''not found''"
    by (simp_all add: response404_def)
  show ?thesis
    using C6_graph_error_propagates [OF s f n] s n unfolding t by simp
qed

section \<open>Properties of the date resolution of calendar.ts\<close>

lemma MakeDay_normalise: "MakeDay y m dt = MakeDay (y + m div 12) (m mod 12) dt"
  by (simp add: MakeDay_def Let_def)

lemma MakeDay_first: "MakeDay y m dt = MakeDay y m 1 + (dt - 1)"
  by (simp add: MakeDay_def Let_def)

text \<open>What a setter returns for a local time.\<close>

lemma fromLocal_Some:
  assumes "fromLocal P x = Some r"
  shows "r = UTC P x" and "\<bar>r\<bar> \<le> 8640000000000000" and "onClock P x \<Longrightarrow> LocalTime P r = x"
  using assms by (auto simp: fromLocal_def TimeClip_def onClock_def split: if_splits)

lemma fromLocal_None: "(fromLocal P x = None) = (8640000000000000 < \<bar>UTC P x\<bar>)"
  by (auto simp: fromLocal_def TimeClip_def)

lemma fromLocal_facts:
  "(\<forall>r. fromLocal P x = Some r \<longrightarrow>
        r = UTC P x \<and> \<bar>r\<bar> \<le> 8640000000000000 \<and> (onClock P x \<longrightarrow> LocalTime P r = x))
   \<and> (fromLocal P x = None) = (8640000000000000 < \<bar>UTC P x\<bar>)"
  using fromLocal_Some [of P x] fromLocal_None [of P x] by blast

text \<open>The local time that \<^verbatim>\<open>setMonth\<close> and \<^verbatim>\<open>setFullYear\<close> make.\<close>

lemma local_fields:
  assumes x: "x = MakeDate (MakeDay ym mn (DateFromTime lt)) (TimeWithinDay lt)"
    and m: "0 \<le> mn" "mn \<le> 11"
  shows "Day x = MakeDay ym mn 1 + (DateFromTime lt - 1)"
    and "TimeWithinDay x = TimeWithinDay lt"
    and "DateFromTime lt \<le> DaysInMonth (InLeapYear ym) mn \<longrightarrow>
           YearFromTime x = ym \<and> MonthFromTime x = mn \<and> DateFromTime x = DateFromTime lt"
proof -
  have t: "0 \<le> TimeWithinDay lt" "TimeWithinDay lt < msPerDay"
    using TimeWithinDay_range [of lt] by simp_all
  have o: "1 \<le> DateFromTime lt" using DateFromTime_range [of lt] by simp
  have "Day x = MakeDay ym mn (DateFromTime lt)"
    unfolding x by (rule Day_MakeDate [OF t])
  then show "Day x = MakeDay ym mn 1 + (DateFromTime lt - 1)"
    using MakeDay_first [of ym mn "DateFromTime lt"] by simp
  show "TimeWithinDay x = TimeWithinDay lt"
    unfolding x by (rule TimeWithinDay_MakeDate [OF t])
  show "DateFromTime lt \<le> DaysInMonth (InLeapYear ym) mn \<longrightarrow>
           YearFromTime x = ym \<and> MonthFromTime x = mn \<and> DateFromTime x = DateFromTime lt"
  proof
    assume d: "DateFromTime lt \<le> DaysInMonth (InLeapYear ym) mn"
    show "YearFromTime x = ym \<and> MonthFromTime x = mn \<and> DateFromTime x = DateFromTime lt"
      unfolding x using fields_of_MakeDate [OF m o d t] by simp
  qed
qed

lemma setMonth_eq:
  "setMonth P (getMonth P t + n) t =
     fromLocal P
       (MakeDate (MakeDay (getFullYear P t + (getMonth P t + n) div 12) ((getMonth P t + n) mod 12)
                    (getDate P t)) (TimeWithinDay (LocalTime P t)))"
  unfolding setMonth_def getFullYear_def getMonth_def getDate_def
  by (subst MakeDay_normalise) (rule refl)

lemma setFullYear_eq:
  "setFullYear P (getFullYear P t + n) t =
     fromLocal P
       (MakeDate (MakeDay (getFullYear P t + n) (getMonth P t) (getDate P t))
          (TimeWithinDay (LocalTime P t)))"
  unfolding setFullYear_def getFullYear_def getMonth_def getDate_def by (rule refl)

lemma parseDate_today:
  assumes "toLowerCase input = ''today''"
  shows "parseDate P input (Some t) = fromLocal P (Day (LocalTime P t) * msPerDay)"
  using assms by (simp add: parseDate_def Let_def setHours_midnight)

lemma parseDate_tomorrow:
  assumes "toLowerCase input = ''tomorrow''"
  shows "parseDate P input (Some t) =
           Option.bind (fromLocal P (LocalTime P t + msPerDay))
             (\<lambda>d. fromLocal P (Day (LocalTime P d) * msPerDay))"
proof -
  have "setDate P (getDate P t + 1) t = fromLocal P (LocalTime P t + msPerDay)"
    using setDate_getDate [of P t 1] by simp
  moreover have "setHours P 0 0 0 0 = (\<lambda>d. fromLocal P (Day (LocalTime P d) * msPerDay))"
    by (rule ext) (rule setHours_midnight)
  ultimately show ?thesis
    using assms by (simp add: parseDate_def Let_def)
qed

lemma parseDate_relative:
  assumes "toLowerCase input = ''+'' @ ds @ [u]" "ds \<noteq> []" "list_all isDigit ds"
    and "u = CHR ''d'' \<or> u = CHR ''m'' \<or> u = CHR ''y''"
    and "digitsValue ds \<le> 2 ^ 53"
  shows "parseDate P input (Some t) =
           (if u = CHR ''d'' then setDate P (getDate P t + int (digitsValue ds)) t
            else if u = CHR ''m'' then setMonth P (getMonth P t + int (digitsValue ds)) t
            else setFullYear P (getFullYear P t + int (digitsValue ds)) t)"
proof -
  have m: "relativeMatch (toLowerCase input) = Some (ds, u)"
    unfolding relativeMatch_Some_iff using assms by simp
  have n: "toLowerCase input \<noteq> ''today''" "toLowerCase input \<noteq> ''tomorrow''"
    unfolding assms(1) by simp_all
  show ?thesis
    unfolding parseDate_def Let_def m using n assms(4)
    by (auto simp: parseInt_digits [OF assms(2,3,5)])
qed

lemma parseDate_other:
  assumes "toLowerCase input \<noteq> ''today''" "toLowerCase input \<noteq> ''tomorrow''"
    and "relativeMatch (toLowerCase input) = None"
  shows "parseDate P input base = dateParse P input"
  using assms by (simp add: parseDate_def Let_def)

lemma resolve_tomorrow:
  assumes "toLowerCase input = ''tomorrow''"
  shows "(\<forall>r. fromLocal P (LocalTime P t + msPerDay) = Some r
              \<and> onClock P (LocalTime P t + msPerDay) \<longrightarrow>
            parseDate P input (Some t) = fromLocal P ((Day (LocalTime P t) + 1) * msPerDay))
         \<and> (fromLocal P (LocalTime P t + msPerDay) = None \<longrightarrow>
              parseDate P input (Some t) = None)"
proof (intro conjI allI impI)
  fix r
  assume a: "fromLocal P (LocalTime P t + msPerDay) = Some r
              \<and> onClock P (LocalTime P t + msPerDay)"
  then have l: "LocalTime P r = LocalTime P t + msPerDay"
    using fromLocal_Some(3) [of P "LocalTime P t + msPerDay" r] by simp
  have "Day (LocalTime P t + msPerDay) = Day (LocalTime P t) + 1"
    using Day_add_days [of "LocalTime P t" 1] by simp
  then show "parseDate P input (Some t) = fromLocal P ((Day (LocalTime P t) + 1) * msPerDay)"
    unfolding parseDate_tomorrow [OF assms] using a l by simp
next
  assume "fromLocal P (LocalTime P t + msPerDay) = None"
  then show "parseDate P input (Some t) = None"
    unfolding parseDate_tomorrow [OF assms] by simp
qed

lemma resolve_days:
  assumes "toLowerCase input = ''+'' @ ds @ ''d''" "ds \<noteq> []" "list_all isDigit ds"
    and "digitsValue ds \<le> 2 ^ 53"
  shows "parseDate P input (Some t) = fromLocal P (LocalTime P t + int (digitsValue ds) * msPerDay)"
  using parseDate_relative [of input ds "CHR ''d''" P t] assms by (simp add: setDate_getDate)

lemma month_index_range: "0 \<le> (m::int) mod 12 \<and> m mod 12 \<le> 11"
proof -
  have "0 \<le> m mod 12" "m mod 12 < 12" by simp_all
  then show ?thesis by linarith
qed

lemma resolve_months:
  assumes "toLowerCase input = ''+'' @ ds @ ''m''" "ds \<noteq> []" "list_all isDigit ds"
    and "digitsValue ds \<le> 2 ^ 53"
  shows "\<exists>x. parseDate P input (Some t) = fromLocal P x
         \<and> (let ym = getFullYear P t + (getMonth P t + int (digitsValue ds)) div 12;
                 mn = (getMonth P t + int (digitsValue ds)) mod 12
             in Day x = MakeDay ym mn 1 + (getDate P t - 1)
              \<and> TimeWithinDay x = TimeWithinDay (LocalTime P t)
              \<and> (getDate P t \<le> DaysInMonth (InLeapYear ym) mn \<longrightarrow>
                   YearFromTime x = ym \<and> MonthFromTime x = mn \<and> DateFromTime x = getDate P t))"
proof -
  define n where "n = int (digitsValue ds)"
  define ym where "ym = getFullYear P t + (getMonth P t + n) div 12"
  define mn where "mn = (getMonth P t + n) mod 12"
  define x where "x = MakeDate (MakeDay ym mn (DateFromTime (LocalTime P t)))
                        (TimeWithinDay (LocalTime P t))"
  have p: "parseDate P input (Some t) = fromLocal P x"
    using parseDate_relative [of input ds "CHR ''m''" P t] assms
    unfolding x_def ym_def mn_def n_def by (simp add: setMonth_eq getDate_def)
  have m: "0 \<le> mn" "mn \<le> 11" unfolding mn_def using month_index_range by simp_all
  note f = local_fields [OF x_def m]
  show ?thesis
    unfolding Let_def n_def [symmetric] ym_def [symmetric] mn_def [symmetric] getDate_def
    using p f by blast
qed

lemma resolve_years:
  assumes "toLowerCase input = ''+'' @ ds @ ''y''" "ds \<noteq> []" "list_all isDigit ds"
    and "digitsValue ds \<le> 2 ^ 53"
  shows "\<exists>x. parseDate P input (Some t) = fromLocal P x
         \<and> (let ym = getFullYear P t + int (digitsValue ds); mn = getMonth P t
             in Day x = MakeDay ym mn 1 + (getDate P t - 1)
              \<and> TimeWithinDay x = TimeWithinDay (LocalTime P t)
              \<and> (getDate P t \<le> DaysInMonth (InLeapYear ym) mn \<longrightarrow>
                   YearFromTime x = ym \<and> MonthFromTime x = mn \<and> DateFromTime x = getDate P t))"
proof -
  define n where "n = int (digitsValue ds)"
  define ym where "ym = getFullYear P t + n"
  define mn where "mn = getMonth P t"
  define x where "x = MakeDate (MakeDay ym mn (DateFromTime (LocalTime P t)))
                        (TimeWithinDay (LocalTime P t))"
  have p: "parseDate P input (Some t) = fromLocal P x"
    using parseDate_relative [of input ds "CHR ''y''" P t] assms
    unfolding x_def ym_def mn_def n_def by (simp add: setFullYear_eq getDate_def)
  have m: "0 \<le> mn" "mn \<le> 11"
    unfolding mn_def getMonth_def using MonthFromTime_range by simp_all
  note f = local_fields [OF x_def m]
  show ?thesis
    unfolding Let_def n_def [symmetric] ym_def [symmetric] mn_def [symmetric] getDate_def
    using p f by blast
qed

lemma resolve_other:
  assumes "toLowerCase input \<noteq> ''today''" "toLowerCase input \<noteq> ''tomorrow''"
    and "\<not> (\<exists>ds u. toLowerCase input = ''+'' @ ds @ [u] \<and> ds \<noteq> [] \<and> list_all isDigit ds
                  \<and> (u = CHR ''d'' \<or> u = CHR ''m'' \<or> u = CHR ''y''))"
  shows "parseDate P input base = dateParse P input"
  using assms(3) unfolding relativeMatch_None_iff [symmetric]
  by (rule parseDate_other [OF assms(1,2)])

lemma resolve_range:
  assumes "command values \<noteq> ''today''" "command values \<noteq> ''week''"
  shows "fst (dateRange P values now nd)
          = (if truthy (cf_start values) then parseDate P (the (cf_start values)) (Some nd)
             else Some now)"
    and "truthy (cf_end values) \<Longrightarrow>
         snd (dateRange P values now nd)
          = parseDate P (the (cf_end values)) (fst (dateRange P values now nd))"
  using assms by (simp_all add: dateRange_def Let_def)

text \<open>
  C5, as the code has it. For every date-string input and every valid base date, with the
  input compared in lower case as the code does, the result is the Date that the platform
  makes of a local time (\<open>fromLocal\<close>: the time value of that local time; an Invalid Date
  when the time value is beyond the range of 8.64e15 milliseconds either side of the
  epoch; where the zone's clock shows the local time, the result shows it again).
  \<^verbatim>\<open>today\<close> gives the base date's local day with the time of day zero; \<^verbatim>\<open>tomorrow\<close>
  gives the next local day with the time of day zero, when the local time one day after
  the base date is on the zone's clock and in range, and an Invalid Date when it is beyond
  the range; \<^verbatim>\<open>+Nd\<close> gives the local time N calendar days later at the same local time
  of day (across a change of the zone's offset that is not N times 24 hours later);
  \<^verbatim>\<open>+Nm\<close> and \<^verbatim>\<open>+Ny\<close> advance the month and the year field with the calendar's
  rollover: months beyond December carry into the year, the time of day is kept, the day
  of the month is kept when the target month has it, and otherwise the date runs over into
  the following month (it is the first of the target month plus the day of the month minus
  one days); any other input is handed to the platform's parser of date strings. N is the
  decimal value of the digits, up to 2^53. In the date range of the default branch (every
  command but \<^verbatim>\<open>today\<close> and \<^verbatim>\<open>week\<close>, which set their own range), an --end that is
  given is resolved against the resolved start date, which is the resolved --start when
  that is given and the current time otherwise.
\<close>

theorem C5_date_resolution:
  "(toLowerCase input = ''today'' \<longrightarrow>
      parseDate P input (Some t) = fromLocal P (Day (LocalTime P t) * msPerDay)
      \<and> Day (Day (LocalTime P t) * msPerDay) = Day (LocalTime P t)
      \<and> TimeWithinDay (Day (LocalTime P t) * msPerDay) = 0)
   \<and> (toLowerCase input = ''tomorrow'' \<longrightarrow>
        parseDate P input (Some t) =
          Option.bind (fromLocal P (LocalTime P t + msPerDay))
            (\<lambda>d. fromLocal P (Day (LocalTime P d) * msPerDay))
      \<and> (\<forall>r. fromLocal P (LocalTime P t + msPerDay) = Some r
               \<and> onClock P (LocalTime P t + msPerDay) \<longrightarrow>
             parseDate P input (Some t) = fromLocal P ((Day (LocalTime P t) + 1) * msPerDay))
      \<and> (fromLocal P (LocalTime P t + msPerDay) = None \<longrightarrow> parseDate P input (Some t) = None)
      \<and> Day ((Day (LocalTime P t) + 1) * msPerDay) = Day (LocalTime P t) + 1
      \<and> TimeWithinDay ((Day (LocalTime P t) + 1) * msPerDay) = 0)
   \<and> (\<forall>ds. toLowerCase input = ''+'' @ ds @ ''d'' \<and> ds \<noteq> [] \<and> list_all isDigit ds
            \<and> digitsValue ds \<le> 2 ^ 53 \<longrightarrow>
        parseDate P input (Some t) = fromLocal P (LocalTime P t + int (digitsValue ds) * msPerDay)
        \<and> Day (LocalTime P t + int (digitsValue ds) * msPerDay)
            = Day (LocalTime P t) + int (digitsValue ds)
        \<and> TimeWithinDay (LocalTime P t + int (digitsValue ds) * msPerDay)
            = TimeWithinDay (LocalTime P t))
   \<and> (\<forall>ds. toLowerCase input = ''+'' @ ds @ ''m'' \<and> ds \<noteq> [] \<and> list_all isDigit ds
            \<and> digitsValue ds \<le> 2 ^ 53 \<longrightarrow>
      (\<exists>x. parseDate P input (Some t) = fromLocal P x
         \<and> (let ym = getFullYear P t + (getMonth P t + int (digitsValue ds)) div 12;
                 mn = (getMonth P t + int (digitsValue ds)) mod 12
             in Day x = MakeDay ym mn 1 + (getDate P t - 1)
              \<and> TimeWithinDay x = TimeWithinDay (LocalTime P t)
              \<and> (getDate P t \<le> DaysInMonth (InLeapYear ym) mn \<longrightarrow>
                   YearFromTime x = ym \<and> MonthFromTime x = mn \<and> DateFromTime x = getDate P t))))
   \<and> (\<forall>ds. toLowerCase input = ''+'' @ ds @ ''y'' \<and> ds \<noteq> [] \<and> list_all isDigit ds
            \<and> digitsValue ds \<le> 2 ^ 53 \<longrightarrow>
      (\<exists>x. parseDate P input (Some t) = fromLocal P x
         \<and> (let ym = getFullYear P t + int (digitsValue ds); mn = getMonth P t
             in Day x = MakeDay ym mn 1 + (getDate P t - 1)
              \<and> TimeWithinDay x = TimeWithinDay (LocalTime P t)
              \<and> (getDate P t \<le> DaysInMonth (InLeapYear ym) mn \<longrightarrow>
                   YearFromTime x = ym \<and> MonthFromTime x = mn \<and> DateFromTime x = getDate P t))))
   \<and> (\<forall>x. (\<forall>r. fromLocal P x = Some r \<longrightarrow>
               r = UTC P x \<and> \<bar>r\<bar> \<le> 8640000000000000 \<and> (onClock P x \<longrightarrow> LocalTime P r = x))
          \<and> (fromLocal P x = None) = (8640000000000000 < \<bar>UTC P x\<bar>))
   \<and> (toLowerCase input \<noteq> ''today'' \<and> toLowerCase input \<noteq> ''tomorrow''
       \<and> \<not> (\<exists>ds u. toLowerCase input = ''+'' @ ds @ [u] \<and> ds \<noteq> [] \<and> list_all isDigit ds
                  \<and> (u = CHR ''d'' \<or> u = CHR ''m'' \<or> u = CHR ''y''))
       \<longrightarrow> parseDate P input base = dateParse P input)
   \<and> (\<forall>n. digitsValue (show_nat n) = n \<and> show_nat n \<noteq> [] \<and> list_all isDigit (show_nat n))
   \<and> (command values \<noteq> ''today'' \<and> command values \<noteq> ''week'' \<and> truthy (cf_end values) \<longrightarrow>
        snd (dateRange P values now nd)
          = parseDate P (the (cf_end values)) (fst (dateRange P values now nd))
        \<and> fst (dateRange P values now nd)
          = (if truthy (cf_start values) then parseDate P (the (cf_start values)) (Some nd)
             else Some now))"
  (is "?today \<and> ?tomorrow \<and> ?days \<and> ?months \<and> ?years \<and> ?local \<and> ?other \<and> ?digits \<and> ?range")
proof (intro conjI)
  show ?today
    by (intro impI conjI) (simp_all add: parseDate_today Day_midnight TimeWithinDay_midnight)
  show ?tomorrow
  proof
    assume a: "toLowerCase input = ''tomorrow''"
    have "Day ((Day (LocalTime P t) + 1) * msPerDay) = Day (LocalTime P t) + 1"
      using Day_add_days [of 0 "Day (LocalTime P t) + 1"] by (simp add: Day_def)
    then show "parseDate P input (Some t) =
          Option.bind (fromLocal P (LocalTime P t + msPerDay))
            (\<lambda>d. fromLocal P (Day (LocalTime P d) * msPerDay))
      \<and> (\<forall>r. fromLocal P (LocalTime P t + msPerDay) = Some r
               \<and> onClock P (LocalTime P t + msPerDay) \<longrightarrow>
             parseDate P input (Some t) = fromLocal P ((Day (LocalTime P t) + 1) * msPerDay))
      \<and> (fromLocal P (LocalTime P t + msPerDay) = None \<longrightarrow> parseDate P input (Some t) = None)
      \<and> Day ((Day (LocalTime P t) + 1) * msPerDay) = Day (LocalTime P t) + 1
      \<and> TimeWithinDay ((Day (LocalTime P t) + 1) * msPerDay) = 0"
      using parseDate_tomorrow [OF a, of P t] resolve_tomorrow [OF a, of P t]
        TimeWithinDay_midnight [of "Day (LocalTime P t) + 1"]
      by blast
  qed
  show ?days
    by (intro allI impI, elim conjE)
      (simp add: resolve_days Day_add_days TimeWithinDay_add_days)
  show ?months by (intro allI impI, elim conjE) (rule resolve_months)
  show ?years by (intro allI impI, elim conjE) (rule resolve_years)
  show ?local by (rule allI) (rule fromLocal_facts)
  show ?other by (intro impI, elim conjE) (rule resolve_other)
  show ?digits by (simp add: digitsValue_show_nat show_nat_digits)
  show ?range by (intro impI, elim conjE) (simp add: resolve_range)
qed

text \<open>
  Samples. In the zone of the platform \<open>NY\<close> the base date 2024-03-09T17:00Z is noon
  local time, the day before the clocks go forward: \<^verbatim>\<open>+1d\<close> is noon of the next day,
  23 hours later, \<^verbatim>\<open>today\<close> is the local midnight before and \<^verbatim>\<open>tomorrow\<close> the local
  midnight after. In the zone one hour east of UTC the base date of the last sample is
  31 January 1970, 01:00:00.005 local time: one month later is day 61 of the year counted
  from 0, which is 3 March, since February 1970 has 28 days.
\<close>

lemma NY_offsets:
  "offsetAtUTC NY t = (if t < 1710054000000 then - 18000000 else - 14400000)"
  "offsetAtLocal NY x = (if x < 1710039600000 then - 18000000 else - 14400000)"
  by (simp_all add: NY_def)

lemma NY_noon:
  "LocalTime NY 1710003600000 = 1709985600000"
  "Day 1709985600000 = 19791"
  "fromLocal NY 1710072000000 = Some 1710086400000"
  "onClock NY 1710072000000"
  "fromLocal NY 1709942400000 = Some 1709960400000"
  "fromLocal NY 1710028800000 = Some 1710046800000"
  by (simp_all add: LocalTime_def UTC_def fromLocal_def TimeClip_def onClock_def NY_offsets
      Day_def msPerDay_def)

theorem C5_date_resolution_witness:
  "parseDate NY ''+1d'' (Some 1710003600000) = Some 1710086400000
   \<and> LocalTime NY 1710086400000 = LocalTime NY 1710003600000 + msPerDay
   \<and> parseDate NY ''today'' (Some 1710003600000) = Some 1709960400000
   \<and> parseDate NY ''tomorrow'' (Some 1710003600000) = Some 1710046800000
   \<and> (\<exists>x. parseDate P0 ''+1m'' (Some 2592000005) = fromLocal P0 x
          \<and> Day x = 61 \<and> TimeWithinDay x = 3600005)"
proof -
  let ?t = "1710003600000 :: int"
  have l1: "toLowerCase ''+1d'' = ''+'' @ ''1'' @ ''d''"
    "toLowerCase ''today'' = ''today''" "toLowerCase ''tomorrow'' = ''tomorrow''"
    "toLowerCase ''+1m'' = ''+'' @ ''1'' @ ''m''"
    by (simp_all add: toLowerCase_def toLower_def)
  have d: "''1'' \<noteq> []" "list_all isDigit ''1''" "digitsValue ''1'' = 1"
    "digitsValue ''1'' \<le> 2 ^ 53"
    by (simp_all add: isDigit_def digitsValue_def)
  have v: "(1709985600000::int) + 1 * msPerDay = 1710072000000"
    "(1709985600000::int) + msPerDay = 1710072000000"
    "(19791::int) * msPerDay = 1709942400000" "(19792::int) * msPerDay = 1710028800000"
    by (simp_all add: msPerDay_def)
  note A = C5_date_resolution [of "''+1d''" NY ?t None flags0 0 0]
  from A have "\<forall>ds. toLowerCase ''+1d'' = ''+'' @ ds @ ''d'' \<and> ds \<noteq> [] \<and> list_all isDigit ds
            \<and> digitsValue ds \<le> 2 ^ 53 \<longrightarrow>
        parseDate NY ''+1d'' (Some ?t) = fromLocal NY (LocalTime NY ?t + int (digitsValue ds) * msPerDay)
        \<and> Day (LocalTime NY ?t + int (digitsValue ds) * msPerDay)
            = Day (LocalTime NY ?t) + int (digitsValue ds)
        \<and> TimeWithinDay (LocalTime NY ?t + int (digitsValue ds) * msPerDay)
            = TimeWithinDay (LocalTime NY ?t)"
    by (elim conjE)
  from this [rule_format, of "''1''"] l1(1) d
  have days: "parseDate NY ''+1d'' (Some ?t) = Some 1710086400000"
    by (simp add: NY_noon v)
  from A have "\<forall>x. (\<forall>r. fromLocal NY x = Some r \<longrightarrow>
               r = UTC NY x \<and> \<bar>r\<bar> \<le> 8640000000000000 \<and> (onClock NY x \<longrightarrow> LocalTime NY r = x))
          \<and> (fromLocal NY x = None) = (8640000000000000 < \<bar>UTC NY x\<bar>)"
    by (elim conjE)
  from this [rule_format, of 1710072000000] NY_noon(3,4)
  have "LocalTime NY 1710086400000 = 1710072000000" by simp
  then have loc: "LocalTime NY 1710086400000 = LocalTime NY ?t + msPerDay"
    by (simp add: NY_noon v)
  from C5_date_resolution [of "''today''" NY ?t None flags0 0 0] l1(2)
  have today: "parseDate NY ''today'' (Some ?t) = Some 1709960400000"
    by (simp add: NY_noon v)
  from C5_date_resolution [of "''tomorrow''" NY ?t None flags0 0 0] l1(3)
  have "\<forall>r. fromLocal NY (LocalTime NY ?t + msPerDay) = Some r
               \<and> onClock NY (LocalTime NY ?t + msPerDay) \<longrightarrow>
             parseDate NY ''tomorrow'' (Some ?t) = fromLocal NY ((Day (LocalTime NY ?t) + 1) * msPerDay)"
    by blast
  from this [rule_format, of 1710086400000]
  have tomorrow: "parseDate NY ''tomorrow'' (Some ?t) = Some 1710046800000"
    by (simp add: NY_noon v)
  have f: "getFullYear P0 2592000005 = 1970" "getMonth P0 2592000005 = 0"
    "getDate P0 2592000005 = 31"
    by code_simp+
  have m: "MakeDay 1970 1 1 = 31" by code_simp
  have tw: "TimeWithinDay (LocalTime P0 2592000005) = 3600005" by code_simp
  from C5_date_resolution [of "''+1m''" P0 2592000005 None flags0 0 0]
  have "\<forall>ds. toLowerCase ''+1m'' = ''+'' @ ds @ ''m'' \<and> ds \<noteq> [] \<and> list_all isDigit ds
            \<and> digitsValue ds \<le> 2 ^ 53 \<longrightarrow>
      (\<exists>x. parseDate P0 ''+1m'' (Some 2592000005) = fromLocal P0 x
         \<and> (let ym = getFullYear P0 2592000005
                        + (getMonth P0 2592000005 + int (digitsValue ds)) div 12;
                 mn = (getMonth P0 2592000005 + int (digitsValue ds)) mod 12
             in Day x = MakeDay ym mn 1 + (getDate P0 2592000005 - 1)
              \<and> TimeWithinDay x = TimeWithinDay (LocalTime P0 2592000005)
              \<and> (getDate P0 2592000005 \<le> DaysInMonth (InLeapYear ym) mn \<longrightarrow>
                   YearFromTime x = ym \<and> MonthFromTime x = mn
                   \<and> DateFromTime x = getDate P0 2592000005)))"
    by (elim conjE)
  from this [rule_format, of "''1''"] l1(4) d(1,2,4)
  have months: "\<exists>x. parseDate P0 ''+1m'' (Some 2592000005) = fromLocal P0 x
          \<and> Day x = 61 \<and> TimeWithinDay x = 3600005"
    unfolding Let_def d(3) f tw by (auto simp: m)
  from days loc today tomorrow months show ?thesis by blast
qed

text \<open>
  The claim C5 as stated, that \<^verbatim>\<open>+Nd\<close> returns the base date advanced N calendar days,
  fails where that is beyond the range of time values: a hundred million days after one
  second past the epoch, in a zone one hour east of UTC, the result is an Invalid Date.
\<close>

theorem C5_out_of_range_counterexample:
  "parseDate P0 ''+100000000d'' (Some 1000) = None"
proof -
  have l: "toLowerCase ''+100000000d'' = ''+'' @ ''100000000'' @ ''d''"
    by (simp add: toLowerCase_def toLower_def)
  have d: "''100000000'' \<noteq> []" "list_all isDigit ''100000000''"
    "digitsValue ''100000000'' = 100000000"
    by (simp_all add: isDigit_def digitsValue_def)
  have b: "digitsValue ''100000000'' \<le> 2 ^ 53" unfolding d(3) by simp
  show ?thesis
    unfolding resolve_days [OF l d(1,2) b] d(3)
    by (simp add: fromLocal_def UTC_def TimeClip_def LocalTime_def P0_def msPerDay_def)
qed

text \<open>
  C8, as the code has it. For every run of the \<^verbatim>\<open>list\<close> command with neither --start
  nor --end, the range starts at the current time and ends at the Date that the platform
  makes of the local time exactly 30 calendar days later at the same local time of day.
  For the \<^verbatim>\<open>week\<close> command the range starts at the Date of today's local midnight and
  ends at the Date of the local time seven calendar days after the current time, at the
  current local time of day. The Date of a local time is its time value, and an Invalid
  Date when that is beyond the range of time values; where the zone's clock shows the
  local time, the Date shows it again.
\<close>

theorem C8_default_ranges:
  "(command values = ''list'' \<and> \<not> truthy (cf_start values) \<and> \<not> truthy (cf_end values) \<longrightarrow>
      dateRange P values now nd = (Some now, fromLocal P (LocalTime P now + 30 * msPerDay))
      \<and> Day (LocalTime P now + 30 * msPerDay) = Day (LocalTime P now) + 30
      \<and> TimeWithinDay (LocalTime P now + 30 * msPerDay) = TimeWithinDay (LocalTime P now))
   \<and> (command values = ''week'' \<longrightarrow>
      dateRange P values now nd =
        (fromLocal P (Day (LocalTime P now) * msPerDay), fromLocal P (LocalTime P now + 7 * msPerDay))
      \<and> Day (Day (LocalTime P now) * msPerDay) = Day (LocalTime P now)
      \<and> TimeWithinDay (Day (LocalTime P now) * msPerDay) = 0
      \<and> Day (LocalTime P now + 7 * msPerDay) = Day (LocalTime P now) + 7
      \<and> TimeWithinDay (LocalTime P now + 7 * msPerDay) = TimeWithinDay (LocalTime P now))
   \<and> (\<forall>x. (\<forall>r. fromLocal P x = Some r \<longrightarrow>
               r = UTC P x \<and> \<bar>r\<bar> \<le> 8640000000000000 \<and> (onClock P x \<longrightarrow> LocalTime P r = x))
          \<and> (fromLocal P x = None) = (8640000000000000 < \<bar>UTC P x\<bar>))"
  (is "?list \<and> ?week \<and> ?local")
proof (intro conjI)
  show ?list
  proof
    assume a: "command values = ''list'' \<and> \<not> truthy (cf_start values) \<and> \<not> truthy (cf_end values)"
    have l: "toLowerCase ''+30d'' = ''+'' @ ''30'' @ ''d''"
      by (simp add: toLowerCase_def toLower_def)
    have d: "''30'' \<noteq> []" "list_all isDigit ''30''" "digitsValue ''30'' = 30"
      by (simp_all add: isDigit_def digitsValue_def)
    have b: "digitsValue ''30'' \<le> 2 ^ 53" unfolding d(3) by simp
    have p: "parseDate P ''+30d'' (Some now) = fromLocal P (LocalTime P now + 30 * msPerDay)"
      using resolve_days [OF l d(1,2) b, of P now] unfolding d(3) by simp
    have "dateRange P values now nd = (Some now, fromLocal P (LocalTime P now + 30 * msPerDay))"
      using a by (simp add: dateRange_def p)
    then show "dateRange P values now nd = (Some now, fromLocal P (LocalTime P now + 30 * msPerDay))
      \<and> Day (LocalTime P now + 30 * msPerDay) = Day (LocalTime P now) + 30
      \<and> TimeWithinDay (LocalTime P now + 30 * msPerDay) = TimeWithinDay (LocalTime P now)"
      using Day_add_days [of "LocalTime P now" 30] TimeWithinDay_add_days [of "LocalTime P now" 30]
      by blast
  qed
  show ?week
  proof
    assume w: "command values = ''week''"
    have r: "dateRange P values now nd =
        (fromLocal P (Day (LocalTime P now) * msPerDay), fromLocal P (LocalTime P now + 7 * msPerDay))"
      using w by (simp add: dateRange_def setHours_midnight setDate_getDate)
    then show "dateRange P values now nd =
        (fromLocal P (Day (LocalTime P now) * msPerDay), fromLocal P (LocalTime P now + 7 * msPerDay))
      \<and> Day (Day (LocalTime P now) * msPerDay) = Day (LocalTime P now)
      \<and> TimeWithinDay (Day (LocalTime P now) * msPerDay) = 0
      \<and> Day (LocalTime P now + 7 * msPerDay) = Day (LocalTime P now) + 7
      \<and> TimeWithinDay (LocalTime P now + 7 * msPerDay) = TimeWithinDay (LocalTime P now)"
      using Day_add_days [of "LocalTime P now" 7] TimeWithinDay_add_days [of "LocalTime P now" 7]
        Day_midnight [of "LocalTime P now"] TimeWithinDay_midnight [of "Day (LocalTime P now)"]
      by blast
  qed
  show ?local by (rule allI) (rule fromLocal_facts)
qed

text \<open>
  Samples. In the zone of the platform \<open>NY\<close> the listing that starts at
  2024-02-20T17:00Z, noon local time, ends 30 calendar days later at noon local time,
  which is 30 times 24 hours less one hour later, the clocks having gone forward in
  between. In the zone one hour east of UTC the week that starts one second after
  midnight UTC begins at the local midnight before and ends seven days later at 01:00:01
  local time.
\<close>

theorem C8_default_ranges_witness:
  "command flags0 = ''list''
   \<and> dateRange NY flags0 1708448400000 1708448400001 = (Some 1708448400000, Some 1711036800000)
   \<and> LocalTime NY 1711036800000 = LocalTime NY 1708448400000 + 30 * msPerDay
   \<and> command (flags0\<lparr>cf_positional := Some ''week''\<rparr>) = ''week''
   \<and> dateRange P0 (flags0\<lparr>cf_positional := Some ''week''\<rparr>) 1000 1001
       = (Some (- 3600000), Some 604801000)"
proof -
  let ?w = "flags0\<lparr>cf_positional := Some ''week''\<rparr>"
  have c: "command ?w = ''week''" "command flags0 = ''list''"
    "\<not> truthy (cf_start flags0)" "\<not> truthy (cf_end flags0)"
    by (simp_all add: command_def flags0_def)
  have n: "LocalTime NY 1708448400000 + 30 * msPerDay = 1711022400000"
    "fromLocal NY 1711022400000 = Some 1711036800000"
    "onClock NY 1711022400000"
    by (simp_all add: LocalTime_def UTC_def fromLocal_def TimeClip_def onClock_def NY_offsets
        msPerDay_def)
  have p: "fromLocal P0 (Day (LocalTime P0 1000) * msPerDay) = Some (- 3600000)"
    "fromLocal P0 (LocalTime P0 1000 + 7 * msPerDay) = Some 604801000"
    by (simp_all add: LocalTime_def UTC_def fromLocal_def TimeClip_def P0_def Day_def msPerDay_def)
  note A = C8_default_ranges [of flags0 NY 1708448400000 1708448400001]
  from A c have list: "dateRange NY flags0 1708448400000 1708448400001
                         = (Some 1708448400000, Some 1711036800000)"
    unfolding n by simp
  from A have "\<forall>x. (\<forall>r. fromLocal NY x = Some r \<longrightarrow>
               r = UTC NY x \<and> \<bar>r\<bar> \<le> 8640000000000000 \<and> (onClock NY x \<longrightarrow> LocalTime NY r = x))
          \<and> (fromLocal NY x = None) = (8640000000000000 < \<bar>UTC NY x\<bar>)"
    by (elim conjE)
  from this [rule_format, of 1711022400000] n(2,3)
  have loc: "LocalTime NY 1711036800000 = LocalTime NY 1708448400000 + 30 * msPerDay"
    unfolding n(1) by simp
  from C8_default_ranges [of ?w P0 1000 1001] c(1)
  have week: "dateRange P0 ?w 1000 1001 = (Some (- 3600000), Some 604801000)"
    unfolding p by simp
  from c(2) list loc c(1) week show ?thesis by blast
qed

text \<open>
  The claim C8 as stated, that the range of \<^verbatim>\<open>week\<close> ends at midnight, fails: one
  second after midnight UTC, in a zone one hour east, the range ends at 01:00:01 local
  time seven days later.
\<close>

theorem C8_week_end_counterexample:
  "command (flags0\<lparr>cf_positional := Some ''week''\<rparr>) = ''week''
   \<and> snd (dateRange P0 (flags0\<lparr>cf_positional := Some ''week''\<rparr>) 1000 1001) = Some 604801000
   \<and> TimeWithinDay (LocalTime P0 604801000) = 3601000
   \<and> TimeWithinDay (LocalTime P0 604801000) \<noteq> 0"
  by (simp add: command_def flags0_def dateRange_def setDate_getDate msPerDay_def
      TimeWithinDay_def P0_def LocalTime_def fromLocal_def UTC_def TimeClip_def)

end
